theory Spec2Isabelle
  imports Complex_Main
begin

section \<open>The shooting game: configuration\<close>

text \<open>
  The simulation core of \<^verbatim>\<open>shooting_game.py\<close>. Python floats (coordinates, radii, clock
  readings) are modelled as ideal reals, Python ints (score and counters) as \<open>int\<close>.
  The pygame surface, fonts and clock object are handles of the presentation layer and are
  not part of the state; every field that \<^verbatim>\<open>Game.reset\<close> assigns is.
\<close>

definition WIDTH :: real where "WIDTH = 900"
definition HEIGHT :: real where "HEIGHT = 600"

definition TARGET_MIN_RADIUS :: real where "TARGET_MIN_RADIUS = 16"
definition TARGET_MAX_RADIUS :: real where "TARGET_MAX_RADIUS = 36"
definition TARGET_LIFETIME :: real where "TARGET_LIFETIME = 1.5"
definition SPAWN_INTERVAL_START :: real where "SPAWN_INTERVAL_START = 0.85"
definition SPAWN_INTERVAL_MIN :: real where "SPAWN_INTERVAL_MIN = 0.35"
definition SPAWN_ACCEL_EVERY :: int where "SPAWN_ACCEL_EVERY = 5"
definition SPAWN_ACCEL_STEP :: real where "SPAWN_ACCEL_STEP = 0.04"
definition MAX_TARGETS_ON_SCREEN :: nat where "MAX_TARGETS_ON_SCREEN = 7"

definition MISS_SCORE :: int where "MISS_SCORE = - 5"
definition TIMEOUT_SCORE :: int where "TIMEOUT_SCORE = - 3"
definition RING_SCORES :: "int list" where "RING_SCORES = [10, 5, 1]"
definition RING_FRACS :: "real list" where "RING_FRACS = [0.25, 0.55, 1.00]"

text \<open>\<^verbatim>\<open>ROUND_TIME = 15\<close>; \<^verbatim>\<open>None\<close> would mean an endless round.\<close>

definition ROUND_TIME :: "real option" where "ROUND_TIME = Some 15"

type_synonym color = "nat \<times> nat \<times> nat"

definition WHITE :: color where "WHITE = (240, 240, 240)"
definition GREEN :: color where "GREEN = (45, 200, 120)"
definition RED :: color where "RED = (230, 60, 70)"
definition CYAN :: color where "CYAN = (60, 210, 230)"

section \<open>Data structures\<close>

record target =
  x :: real
  y :: real
  r :: real
  spawn_time :: real
  lifetime :: real

definition contains :: "target \<Rightarrow> real \<Rightarrow> real \<Rightarrow> bool" where
  "contains t px py \<longleftrightarrow> (x t - px)\<^sup>2 + (y t - py)\<^sup>2 \<le> (r t)\<^sup>2"

definition clamp :: "'a::linorder \<Rightarrow> 'a \<Rightarrow> 'a \<Rightarrow> 'a" where
  "clamp v lo hi = max lo (min hi v)"

text \<open>A floating text is the tuple \<^verbatim>\<open>(text, color, x, y, birth_time)\<close>.\<close>

type_synonym floating_text = "string \<times> color \<times> real \<times> real \<times> real"

record game =
  running :: bool
  playing :: bool
  paused :: bool
  targets :: "target list"
  spawn_interval :: real
  last_spawn :: real
  start_time :: real
  elapsed :: real
  score :: int
  hits :: int
  misses :: int
  timeouts :: int
  best_score :: int
  floating_texts :: "floating_text list"

section \<open>Decimal rendering of integers\<close>

text \<open>\<^verbatim>\<open>str(n)\<close> and the f-string \<^verbatim>\<open>{n}\<close> of a Python int.\<close>

definition digit_char :: "nat \<Rightarrow> char" where
  "digit_char d = ''0123456789'' ! d"

fun str_nat :: "nat \<Rightarrow> string" where
  "str_nat n = (if n < 10 then [digit_char n] else str_nat (n div 10) @ [digit_char (n mod 10)])"

declare str_nat.simps [simp del]

definition str_int :: "int \<Rightarrow> string" where
  "str_int i = (if i < 0 then CHR ''-'' # str_nat (nat (- i)) else str_nat (nat i))"

section \<open>Game operations\<close>

definition reset :: "game \<Rightarrow> game" where
  "reset g = g\<lparr>running := True, playing := False, paused := False, targets := [],
     spawn_interval := SPAWN_INTERVAL_START, last_spawn := 0, start_time := 0, elapsed := 0,
     score := 0, hits := 0, misses := 0, timeouts := 0, best_score := 0,
     floating_texts := []\<rparr>"

text \<open>
  \<^verbatim>\<open>Game.__init__\<close> creates the object and calls \<^verbatim>\<open>reset\<close>, which assigns every field;
  the record passed to \<open>reset\<close> here only stands for the not yet initialised object.
\<close>

definition Game_init :: game where
  "Game_init = reset \<lparr>running = False, playing = False, paused = False, targets = [],
     spawn_interval = 0, last_spawn = 0, start_time = 0, elapsed = 0, score = 0, hits = 0,
     misses = 0, timeouts = 0, best_score = 0, floating_texts = []\<rparr>"

definition start_round :: "game \<Rightarrow> real \<Rightarrow> game" where
  "start_round g now = g\<lparr>playing := True, targets := [],
     spawn_interval := SPAWN_INTERVAL_START, last_spawn := now, start_time := now,
     elapsed := 0, score := 0, hits := 0, misses := 0, timeouts := 0,
     floating_texts := []\<rparr>"

definition make_float_text :: "game \<Rightarrow> string \<Rightarrow> color \<Rightarrow> real \<Rightarrow> real \<Rightarrow> real \<Rightarrow> game" where
  "make_float_text g text color fx fy now =
     g\<lparr>floating_texts := floating_texts g @ [(text, color, fx, fy, now)]\<rparr>"

text \<open>
  \<^verbatim>\<open>random.uniform(a, b)\<close> is \<^verbatim>\<open>a + (b - a) * random()\<close>; the four values that
  \<^verbatim>\<open>spawn_target\<close> draws from \<^verbatim>\<open>random()\<close> are an argument of the model.
\<close>

record draws =
  u_r :: real
  u_x :: real
  u_y :: real
  u_life :: real

definition unit_draws :: "draws \<Rightarrow> bool" where
  "unit_draws rnd \<longleftrightarrow> 0 \<le> u_r rnd \<and> u_r rnd < 1 \<and> 0 \<le> u_x rnd \<and> u_x rnd < 1
     \<and> 0 \<le> u_y rnd \<and> u_y rnd < 1 \<and> 0 \<le> u_life rnd \<and> u_life rnd < 1"

definition uniform :: "real \<Rightarrow> real \<Rightarrow> real \<Rightarrow> real" where
  "uniform a b u = a + (b - a) * u"

definition spawn_target :: "game \<Rightarrow> draws \<Rightarrow> real \<Rightarrow> game" where
  "spawn_target g rnd now =
     (let r0 = uniform TARGET_MIN_RADIUS TARGET_MAX_RADIUS (u_r rnd);
          x0 = uniform (r0 + 8) (WIDTH - r0 - 8) (u_x rnd);
          y0 = uniform (r0 + 8 + 40) (HEIGHT - r0 - 8) (u_y rnd);
          life = TARGET_LIFETIME * uniform 0.85 1.15 (u_life rnd)
      in g\<lparr>targets := targets g @
           [\<lparr>x = x0, y = y0, r = r0, spawn_time = now, lifetime = life\<rparr>]\<rparr>)"

text \<open>
  The expiry loop of \<^verbatim>\<open>update\<close>: it walks the old target list, charges each expired
  target to the game and collects the others in \<^verbatim>\<open>alive\<close>.
\<close>

fun expire_loop :: "real \<Rightarrow> target list \<Rightarrow> game \<times> target list \<Rightarrow> game \<times> target list" where
  "expire_loop now [] (g, alive) = (g, alive)"
| "expire_loop now (t # ts) (g, alive) =
     (if now - spawn_time t > lifetime t
      then expire_loop now ts
             (make_float_text
                (g\<lparr>score := score g + TIMEOUT_SCORE, timeouts := timeouts g + 1\<rparr>)
                (CHR ''-'' # str_int (abs TIMEOUT_SCORE)) RED (x t) (y t) now,
              alive)
      else expire_loop now ts (g, alive @ [t]))"

definition update :: "game \<Rightarrow> draws \<Rightarrow> real \<Rightarrow> real \<Rightarrow> game" where
  "update g rnd dt now =
     (if \<not> playing g then g
      else if paused g then g
      else
        let g1 = g\<lparr>elapsed := now - start_time g\<rparr>;
            g2 = (if SPAWN_ACCEL_EVERY \<noteq> 0 \<and> elapsed g1 > 0
                  then let steps = \<lfloor>elapsed g1 / real_of_int SPAWN_ACCEL_EVERY\<rfloor>
                       in g1\<lparr>spawn_interval :=
                             clamp (SPAWN_INTERVAL_START - real_of_int steps * SPAWN_ACCEL_STEP)
                               SPAWN_INTERVAL_MIN SPAWN_INTERVAL_START\<rparr>
                  else g1);
            g3 = (if now - last_spawn g2 \<ge> spawn_interval g2
                     \<and> length (targets g2) < MAX_TARGETS_ON_SCREEN
                  then (spawn_target g2 rnd now)\<lparr>last_spawn := now\<rparr>
                  else g2);
            (g4, alive) = expire_loop now (targets g3) (g3, []);
            g5 = g4\<lparr>targets := alive\<rparr>
        in (case ROUND_TIME of
              None \<Rightarrow> g5
            | Some round_time \<Rightarrow>
                if elapsed g5 \<ge> round_time
                then g5\<lparr>best_score := max (best_score g5) (score g5), playing := False\<rparr>
                else g5))"

text \<open>
  The scan of \<^verbatim>\<open>handle_click\<close> over \<^verbatim>\<open>enumerate(self.targets)\<close>; the loop state is
  \<^verbatim>\<open>(hit_index, closest_d2, ring_idx_for_hit)\<close>, with \<open>None\<close> for Python's \<^verbatim>\<open>None\<close>.
\<close>

fun click_scan ::
  "real \<Rightarrow> real \<Rightarrow> nat \<Rightarrow> target list \<Rightarrow> int \<times> real \<times> nat option \<Rightarrow> int \<times> real \<times> nat option" where
  "click_scan mx my i [] st = st"
| "click_scan mx my i (t # ts) (hit_index, closest_d2, ring_idx_for_hit) =
     (let dx = mx - x t; dy = my - y t; d2 = dx * dx + dy * dy
      in if d2 \<le> (r t * last RING_FRACS)\<^sup>2
         then if d2 < closest_d2
              then click_scan mx my (i + 1) ts
                     (int i, d2,
                      if d2 \<le> (r t * RING_FRACS ! 0)\<^sup>2 then Some 0
                      else if d2 \<le> (r t * RING_FRACS ! 1)\<^sup>2 then Some 1
                      else Some 2)
              else click_scan mx my (i + 1) ts (hit_index, closest_d2, ring_idx_for_hit)
         else click_scan mx my (i + 1) ts (hit_index, closest_d2, ring_idx_for_hit))"

text \<open>
  \<^verbatim>\<open>list.pop(i)\<close> for an index in range: the element and the list without it.
  \<open>handle_click\<close> only pops an index that its scan has found in the list (lemma
  \<open>click_scan_hit_in_range\<close>).
\<close>

definition pop :: "'a list \<Rightarrow> nat \<Rightarrow> 'a \<times> 'a list" where
  "pop xs i = (xs ! i, take i xs @ drop (Suc i) xs)"

definition handle_click :: "game \<Rightarrow> real \<times> real \<Rightarrow> real \<Rightarrow> game" where
  "handle_click g pos now =
     (if \<not> playing g then start_round g now
      else
        let (mx, my) = pos;
            (hit_index, closest_d2, ring_idx_for_hit) =
               click_scan mx my 0 (targets g) (- 1, 10 ^ 12, None)
        in (case ring_idx_for_hit of
              Some ring \<Rightarrow>
                if hit_index \<ge> 0 then
                  let (t, rest) = pop (targets g) (nat hit_index);
                      award = RING_SCORES ! ring;
                      g1 = g\<lparr>targets := rest, score := score g + award, hits := hits g + 1\<rparr>;
                      color = (if award = 10 then GREEN else if award = 5 then CYAN else WHITE)
                  in make_float_text g1 (CHR ''+'' # str_int award) color (x t) (y t) now
                else
                  make_float_text (g\<lparr>score := score g + MISS_SCORE, misses := misses g + 1\<rparr>)
                    (str_int MISS_SCORE) RED mx my now
            | None \<Rightarrow>
                make_float_text (g\<lparr>score := score g + MISS_SCORE, misses := misses g + 1\<rparr>)
                  (str_int MISS_SCORE) RED mx my now))"

subsection \<open>Events\<close>

datatype key = K_ESCAPE | K_r | K_p | K_other

datatype event = QUIT | KEYDOWN key | MOUSEBUTTONDOWN nat "real \<times> real" | OTHER_EVENT

fun handle_event :: "real \<Rightarrow> game \<Rightarrow> event \<Rightarrow> game" where
  "handle_event now g QUIT = g\<lparr>running := False\<rparr>"
| "handle_event now g (KEYDOWN k) =
     (if k = K_ESCAPE then g\<lparr>running := False\<rparr>
      else if k = K_r then g\<lparr>best_score := 0\<rparr>
      else if k = K_p \<and> playing g then g\<lparr>paused := \<not> paused g\<rparr>
      else g)"
| "handle_event now g (MOUSEBUTTONDOWN button pos) =
     (if button = 1 then handle_click g pos now else g)"
| "handle_event now g OTHER_EVENT = g"

definition handle_events :: "game \<Rightarrow> event list \<Rightarrow> real \<Rightarrow> game" where
  "handle_events g evs now = foldl (handle_event now) g evs"

subsection \<open>The state effects of drawing\<close>

text \<open>
  \<^verbatim>\<open>draw\<close> renders; its only effect on the game is pruning floating texts that are
  0.7 seconds old. The accuracy shown in the HUD is \<open>acc\<close>; Python's \<^verbatim>\<open>/\<close> raises
  \<^verbatim>\<open>ZeroDivisionError\<close> on a zero divisor.
\<close>

definition draw :: "game \<Rightarrow> real \<Rightarrow> game" where
  "draw g now =
     g\<lparr>floating_texts :=
         filter (\<lambda>(text, color, fx, fy, birth). now - birth < 0.7) (floating_texts g)\<rparr>"

datatype py_error = ZeroDivisionError

definition truediv :: "int \<Rightarrow> int \<Rightarrow> py_error + real" where
  "truediv a b = (if b = 0 then Inl ZeroDivisionError else Inr (real_of_int a / real_of_int b))"

definition acc :: "game \<Rightarrow> py_error + real" where
  "acc g = (case truediv (hits g) (max 1 (hits g + misses g)) of
              Inl e \<Rightarrow> Inl e
            | Inr q \<Rightarrow> Inr (q * 100.0))"

text \<open>One iteration of the loop of \<^verbatim>\<open>run\<close>.\<close>

definition frame :: "game \<Rightarrow> event list \<Rightarrow> draws \<Rightarrow> real \<Rightarrow> real \<Rightarrow> game" where
  "frame g evs rnd dt now = draw (update (handle_events g evs now) rnd dt now) now"

section \<open>The blocks of \<open>update\<close>\<close>

text \<open>
  The four commented blocks of \<^verbatim>\<open>update\<close> (difficulty, spawn, expire, end round) as
  functions of their own, so that each can be reasoned about separately; lemma
  \<open>update_blocks\<close> below shows that \<open>update\<close> is their composition.
\<close>

definition difficulty_block :: "game \<Rightarrow> game" where
  "difficulty_block g =
     (if SPAWN_ACCEL_EVERY \<noteq> 0 \<and> elapsed g > 0
      then g\<lparr>spawn_interval :=
              clamp (SPAWN_INTERVAL_START
                       - real_of_int \<lfloor>elapsed g / real_of_int SPAWN_ACCEL_EVERY\<rfloor> * SPAWN_ACCEL_STEP)
                SPAWN_INTERVAL_MIN SPAWN_INTERVAL_START\<rparr>
      else g)"

definition spawn_block :: "game \<Rightarrow> draws \<Rightarrow> real \<Rightarrow> game" where
  "spawn_block g rnd now =
     (if now - last_spawn g \<ge> spawn_interval g \<and> length (targets g) < MAX_TARGETS_ON_SCREEN
      then (spawn_target g rnd now)\<lparr>last_spawn := now\<rparr>
      else g)"

definition expire_block :: "game \<Rightarrow> real \<Rightarrow> game" where
  "expire_block g now = (case expire_loop now (targets g) (g, []) of
                           (g4, alive) \<Rightarrow> g4\<lparr>targets := alive\<rparr>)"

definition end_round_block :: "game \<Rightarrow> game" where
  "end_round_block g =
     (case ROUND_TIME of
        None \<Rightarrow> g
      | Some round_time \<Rightarrow>
          if elapsed g \<ge> round_time
          then g\<lparr>best_score := max (best_score g) (score g), playing := False\<rparr>
          else g)"

section \<open>Reachable states\<close>

text \<open>
  The states that any sequence of calls of the game's methods can produce, starting from
  a freshly reset game. The values drawn by \<^verbatim>\<open>random()\<close> lie in \<open>[0, 1)\<close>.
\<close>

inductive reachable :: "game \<Rightarrow> bool" where
  reach_reset: "reachable (reset g)"
| reach_start_round: "reachable g \<Longrightarrow> reachable (start_round g now)"
| reach_update: "reachable g \<Longrightarrow> unit_draws rnd \<Longrightarrow> reachable (update g rnd dt now)"
| reach_handle_click: "reachable g \<Longrightarrow> reachable (handle_click g pos now)"
| reach_handle_events: "reachable g \<Longrightarrow> reachable (handle_events g evs now)"
| reach_draw: "reachable g \<Longrightarrow> reachable (draw g now)"

text \<open>
  The same with a clock: \<open>clocked c g\<close> holds when \<open>g\<close> is produced by calls whose
  \<^verbatim>\<open>now\<close> arguments never decrease and whose last one was \<open>c\<close>, as in \<^verbatim>\<open>run\<close>, where
  \<^verbatim>\<open>now\<close> is read from \<^verbatim>\<open>pygame.time.get_ticks()\<close>.
\<close>

inductive clocked :: "real \<Rightarrow> game \<Rightarrow> bool" where
  clocked_reset: "clocked c (reset g)"
| clocked_start_round: "clocked c g \<Longrightarrow> c \<le> now \<Longrightarrow> clocked now (start_round g now)"
| clocked_update:
    "clocked c g \<Longrightarrow> c \<le> now \<Longrightarrow> unit_draws rnd \<Longrightarrow> clocked now (update g rnd dt now)"
| clocked_handle_click: "clocked c g \<Longrightarrow> c \<le> now \<Longrightarrow> clocked now (handle_click g pos now)"
| clocked_handle_events: "clocked c g \<Longrightarrow> c \<le> now \<Longrightarrow> clocked now (handle_events g evs now)"
| clocked_draw: "clocked c g \<Longrightarrow> c \<le> now \<Longrightarrow> clocked now (draw g now)"

text \<open>What every reachable state satisfies.\<close>

definition target_ok :: "target \<Rightarrow> bool" where
  "target_ok t \<longleftrightarrow> TARGET_MIN_RADIUS \<le> r t \<and> r t \<le> TARGET_MAX_RADIUS \<and> 0 < lifetime t"

definition game_inv :: "game \<Rightarrow> bool" where
  "game_inv g \<longleftrightarrow> length (targets g) \<le> MAX_TARGETS_ON_SCREEN \<and> (playing g \<or> \<not> paused g)
     \<and> 0 \<le> hits g \<and> 0 \<le> misses g \<and> list_all target_ok (targets g)"

definition clock_inv :: "real \<Rightarrow> game \<Rightarrow> bool" where
  "clock_inv c g \<longleftrightarrow> playing g \<longrightarrow>
     start_time g \<le> c \<and> 0 \<le> elapsed g \<and> elapsed g \<le> c - start_time g
     \<and> (elapsed g = 0 \<longrightarrow> spawn_interval g = SPAWN_INTERVAL_START)"

section \<open>The notions of the specification\<close>

text \<open>
  The difficulty ramp as the specification writes it:
  \<open>clamp(START - floor(t / ACCEL_EVERY) * ACCEL_STEP, MIN, START)\<close>, with the floor
  \<open>MIN = 0.35\<close> and the ceiling \<open>START = 0.85\<close> written out, independently of the
  \<open>clamp\<close> of the code.
\<close>

definition spec_spawn_interval :: "real \<Rightarrow> real" where
  "spec_spawn_interval t =
     (if 0.85 - real_of_int \<lfloor>t / 5\<rfloor> * 0.04 < 0.35 then 0.35
      else if 0.85 < 0.85 - real_of_int \<lfloor>t / 5\<rfloor> * 0.04 then 0.85
      else 0.85 - real_of_int \<lfloor>t / 5\<rfloor> * 0.04)"

text \<open>
  The hit resolver as the specification writes it: squared distance to the click, the
  outer ring \<open>(radius * 1.00)\<^sup>2\<close>, and the award by the innermost ring that matches.
\<close>

definition spec_dist2 :: "real \<Rightarrow> real \<Rightarrow> target \<Rightarrow> real" where
  "spec_dist2 px py t = (px - x t)\<^sup>2 + (py - y t)\<^sup>2"

definition spec_in_outer :: "real \<Rightarrow> real \<Rightarrow> target \<Rightarrow> bool" where
  "spec_in_outer px py t \<longleftrightarrow> spec_dist2 px py t \<le> (r t * 1.00)\<^sup>2"

definition spec_award :: "real \<Rightarrow> real \<Rightarrow> target \<Rightarrow> int" where
  "spec_award px py t =
     (if spec_dist2 px py t \<le> (r t * 0.25)\<^sup>2 then 10
      else if spec_dist2 px py t \<le> (r t * 0.55)\<^sup>2 then 5
      else 1)"

text \<open>The ring index that the scan of \<^verbatim>\<open>handle_click\<close> records for a target.\<close>

definition ring_idx :: "real \<Rightarrow> real \<Rightarrow> target \<Rightarrow> nat" where
  "ring_idx px py t =
     (if spec_dist2 px py t \<le> (r t * RING_FRACS ! 0)\<^sup>2 then 0
      else if spec_dist2 px py t \<le> (r t * RING_FRACS ! 1)\<^sup>2 then 1
      else 2)"

text \<open>Expiry as the specification writes it: \<open>now - spawnTime > lifetime\<close>.\<close>

definition spec_expired :: "real \<Rightarrow> target \<Rightarrow> bool" where
  "spec_expired now t \<longleftrightarrow> now - spawn_time t > lifetime t"

section \<open>A concrete round\<close>

text \<open>
  A round used to run the theorems on concrete inputs: it starts at clock 0, and the
  update at clock 1 spawns one target from draws that are all one half, at \<open>(450, 320)\<close>
  with radius 26 and lifetime 1.5.
\<close>

definition demo_draws :: draws where
  "demo_draws = \<lparr>u_r = 1/2, u_x = 1/2, u_y = 1/2, u_life = 1/2\<rparr>"

definition demo_target :: target where
  "demo_target = \<lparr>x = 450, y = 320, r = 26, spawn_time = 1, lifetime = 3/2\<rparr>"

definition demo_round :: game where
  "demo_round = update (start_round Game_init 0) demo_draws (1/120) 1"

definition demo_paused :: game where
  "demo_paused = handle_events demo_round [KEYDOWN K_p] 1"

definition demo_resumed :: game where
  "demo_resumed = handle_events (update demo_paused demo_draws 19 20) [KEYDOWN K_p] 20"

definition demo_scored :: game where
  "demo_scored = handle_click demo_round (450, 320) 2"

definition demo_over :: game where
  "demo_over = update demo_scored demo_draws (1/120) 15"

definition demo_second :: game where
  "demo_second = handle_click demo_over (0, 0) 16"

definition demo_ramped :: game where
  "demo_ramped = update (start_round Game_init 0) demo_draws (1/120) 12"

section \<open>Basic facts about the operations\<close>

lemmas config_defs =
  WIDTH_def HEIGHT_def TARGET_MIN_RADIUS_def TARGET_MAX_RADIUS_def TARGET_LIFETIME_def
  SPAWN_INTERVAL_START_def SPAWN_INTERVAL_MIN_def SPAWN_ACCEL_EVERY_def SPAWN_ACCEL_STEP_def
  MAX_TARGETS_ON_SCREEN_def MISS_SCORE_def TIMEOUT_SCORE_def RING_SCORES_def RING_FRACS_def
  ROUND_TIME_def

lemma timeout_text: "CHR ''-'' # str_int (abs TIMEOUT_SCORE) = ''-3''"
  by (simp add: str_int_def TIMEOUT_SCORE_def str_nat.simps digit_char_def)

lemma miss_text: "str_int MISS_SCORE = ''-5''"
  by (simp add: str_int_def MISS_SCORE_def str_nat.simps digit_char_def)

lemma expire_loop_eq:
  "expire_loop now ts (g, alive) =
     (g\<lparr>score := score g + TIMEOUT_SCORE * int (length (filter (spec_expired now) ts)),
        timeouts := timeouts g + int (length (filter (spec_expired now) ts)),
        floating_texts := floating_texts g @
           map (\<lambda>t. (''-3'', RED, x t, y t, now)) (filter (spec_expired now) ts)\<rparr>,
      alive @ filter (\<lambda>t. \<not> spec_expired now t) ts)"
proof (induction ts arbitrary: g alive)
  case Nil
  show ?case by simp
next
  case (Cons t ts)
  show ?case
    by (simp add: Cons.IH spec_expired_def make_float_text_def timeout_text algebra_simps)
qed

lemma update_not_playing: "\<not> playing g \<Longrightarrow> update g rnd dt now = g"
  by (simp add: update_def)

lemma update_paused: "paused g \<Longrightarrow> update g rnd dt now = g"
  by (simp add: update_def)

lemma update_blocks:
  "playing g \<Longrightarrow> \<not> paused g \<Longrightarrow>
   update g rnd dt now =
     end_round_block (expire_block
       (spawn_block (difficulty_block (g\<lparr>elapsed := now - start_time g\<rparr>)) rnd now) now)"
  by (simp add: update_def Let_def difficulty_block_def spawn_block_def expire_block_def
      end_round_block_def split: prod.split option.split)

lemma expire_block_eq:
  "expire_block g now =
     g\<lparr>targets := filter (\<lambda>t. \<not> spec_expired now t) (targets g),
       score := score g + TIMEOUT_SCORE * int (length (filter (spec_expired now) (targets g))),
       timeouts := timeouts g + int (length (filter (spec_expired now) (targets g))),
       floating_texts := floating_texts g @
          map (\<lambda>t. (''-3'', RED, x t, y t, now)) (filter (spec_expired now) (targets g))\<rparr>"
  by (simp add: expire_block_def expire_loop_eq)

lemma demo_round_eq:
  "demo_round = \<lparr>running = True, playing = True, paused = False, targets = [demo_target],
     spawn_interval = 0.85, last_spawn = 1, start_time = 0, elapsed = 1, score = 0, hits = 0,
     misses = 0, timeouts = 0, best_score = 0, floating_texts = []\<rparr>"
  by (simp add: demo_round_def Game_init_def reset_def start_round_def update_blocks
      difficulty_block_def spawn_block_def expire_block_eq end_round_block_def
      spawn_target_def uniform_def demo_draws_def demo_target_def spec_expired_def
      clamp_def config_defs)

section \<open>The scan of \<open>handle_click\<close>\<close>

lemma award_text:
  "CHR ''+'' # str_int 10 = ''+10''" "CHR ''+'' # str_int 5 = ''+5''"
  "CHR ''+'' # str_int 1 = ''+1''"
  by (simp_all add: str_int_def str_nat.simps digit_char_def)

lemma ring_award: "RING_SCORES ! ring_idx px py t = spec_award px py t"
  by (simp add: RING_SCORES_def RING_FRACS_def ring_idx_def spec_award_def)

lemma click_scan_spec:
  assumes "click_scan mx my i ts (hi, cd, ri) = (hi', cd', ri')"
  shows "if (\<exists>t\<in>set ts. spec_in_outer mx my t \<and> spec_dist2 mx my t < cd)
         then (\<exists>k<length ts. hi' = int (i + k) \<and> cd' = spec_dist2 mx my (ts ! k)
                 \<and> spec_in_outer mx my (ts ! k) \<and> cd' < cd
                 \<and> ri' = Some (ring_idx mx my (ts ! k))
                 \<and> (\<forall>j<length ts. spec_in_outer mx my (ts ! j)
                        \<longrightarrow> cd' \<le> spec_dist2 mx my (ts ! j))
                 \<and> (\<forall>j<k. spec_in_outer mx my (ts ! j) \<longrightarrow> cd' < spec_dist2 mx my (ts ! j)))
         else (hi', cd', ri') = (hi, cd, ri)"
  using assms
proof (induction ts arbitrary: i hi cd ri)
  case Nil
  then show ?case by simp
next
  case (Cons t ts)
  let ?d = "spec_dist2 mx my" and ?in = "spec_in_outer mx my"
  have d2: "(mx - x t) * (mx - x t) + (my - y t) * (my - y t) = ?d t"
    by (simp add: spec_dist2_def power2_eq_square)
  have inn: "?d t \<le> (r t * last RING_FRACS)\<^sup>2 \<longleftrightarrow> ?in t"
    by (simp add: spec_in_outer_def RING_FRACS_def)
  show ?case
  proof (cases "?in t \<and> ?d t < cd")
    case True
    from Cons.prems True
    have eq: "click_scan mx my (i + 1) ts (int i, ?d t, Some (ring_idx mx my t)) = (hi', cd', ri')"
      by (auto simp: Let_def d2 inn ring_idx_def cong: if_cong split: if_splits)
    note IH = Cons.IH [OF eq]
    show ?thesis
    proof (cases "\<exists>t'\<in>set ts. ?in t' \<and> ?d t' < ?d t")
      case better: True
      with IH obtain k where k: "k < length ts" "hi' = int (i + 1 + k)" "cd' = ?d (ts ! k)"
        "?in (ts ! k)" "cd' < ?d t" "ri' = Some (ring_idx mx my (ts ! k))"
        "\<forall>j<length ts. ?in (ts ! j) \<longrightarrow> cd' \<le> ?d (ts ! j)"
        "\<forall>j<k. ?in (ts ! j) \<longrightarrow> cd' < ?d (ts ! j)"
        by auto
      have "Suc k < length (t # ts) \<and> hi' = int (i + Suc k) \<and> cd' = ?d ((t # ts) ! Suc k)
            \<and> ?in ((t # ts) ! Suc k) \<and> cd' < cd \<and> ri' = Some (ring_idx mx my ((t # ts) ! Suc k))
            \<and> (\<forall>j<length (t # ts). ?in ((t # ts) ! j) \<longrightarrow> cd' \<le> ?d ((t # ts) ! j))
            \<and> (\<forall>j<Suc k. ?in ((t # ts) ! j) \<longrightarrow> cd' < ?d ((t # ts) ! j))"
        using k True by (auto simp: less_Suc_eq_0_disj)
      then have "\<exists>k<length (t # ts). hi' = int (i + k) \<and> cd' = ?d ((t # ts) ! k)
            \<and> ?in ((t # ts) ! k) \<and> cd' < cd \<and> ri' = Some (ring_idx mx my ((t # ts) ! k))
            \<and> (\<forall>j<length (t # ts). ?in ((t # ts) ! j) \<longrightarrow> cd' \<le> ?d ((t # ts) ! j))
            \<and> (\<forall>j<k. ?in ((t # ts) ! j) \<longrightarrow> cd' < ?d ((t # ts) ! j))"
        by blast
      with True show ?thesis by simp
    next
      case nobetter: False
      with IH have res: "hi' = int i" "cd' = ?d t" "ri' = Some (ring_idx mx my t)"
        by auto
      have all: "\<forall>j<length ts. ?in (ts ! j) \<longrightarrow> ?d t \<le> ?d (ts ! j)"
        using nobetter by (metis nth_mem not_le)
      have "0 < length (t # ts) \<and> hi' = int (i + 0) \<and> cd' = ?d ((t # ts) ! 0)
            \<and> ?in ((t # ts) ! 0) \<and> cd' < cd \<and> ri' = Some (ring_idx mx my ((t # ts) ! 0))
            \<and> (\<forall>j<length (t # ts). ?in ((t # ts) ! j) \<longrightarrow> cd' \<le> ?d ((t # ts) ! j))
            \<and> (\<forall>j<0. ?in ((t # ts) ! j) \<longrightarrow> cd' < ?d ((t # ts) ! j))"
        using res True all by (auto simp: less_Suc_eq_0_disj)
      then have "\<exists>k<length (t # ts). hi' = int (i + k) \<and> cd' = ?d ((t # ts) ! k)
            \<and> ?in ((t # ts) ! k) \<and> cd' < cd \<and> ri' = Some (ring_idx mx my ((t # ts) ! k))
            \<and> (\<forall>j<length (t # ts). ?in ((t # ts) ! j) \<longrightarrow> cd' \<le> ?d ((t # ts) ! j))
            \<and> (\<forall>j<k. ?in ((t # ts) ! j) \<longrightarrow> cd' < ?d ((t # ts) ! j))"
        by blast
      with True show ?thesis by simp
    qed
  next
    case False
    from Cons.prems False
    have eq: "click_scan mx my (i + 1) ts (hi, cd, ri) = (hi', cd', ri')"
      by (auto simp: Let_def d2 inn split: if_splits)
    note IH = Cons.IH [OF eq]
    show ?thesis
    proof (cases "\<exists>t'\<in>set ts. ?in t' \<and> ?d t' < cd")
      case better: True
      with IH obtain k where k: "k < length ts" "hi' = int (i + 1 + k)" "cd' = ?d (ts ! k)"
        "?in (ts ! k)" "cd' < cd" "ri' = Some (ring_idx mx my (ts ! k))"
        "\<forall>j<length ts. ?in (ts ! j) \<longrightarrow> cd' \<le> ?d (ts ! j)"
        "\<forall>j<k. ?in (ts ! j) \<longrightarrow> cd' < ?d (ts ! j)"
        by auto
      have "Suc k < length (t # ts) \<and> hi' = int (i + Suc k) \<and> cd' = ?d ((t # ts) ! Suc k)
            \<and> ?in ((t # ts) ! Suc k) \<and> cd' < cd \<and> ri' = Some (ring_idx mx my ((t # ts) ! Suc k))
            \<and> (\<forall>j<length (t # ts). ?in ((t # ts) ! j) \<longrightarrow> cd' \<le> ?d ((t # ts) ! j))
            \<and> (\<forall>j<Suc k. ?in ((t # ts) ! j) \<longrightarrow> cd' < ?d ((t # ts) ! j))"
        using k False by (auto simp: less_Suc_eq_0_disj)
      then have "\<exists>k<length (t # ts). hi' = int (i + k) \<and> cd' = ?d ((t # ts) ! k)
            \<and> ?in ((t # ts) ! k) \<and> cd' < cd \<and> ri' = Some (ring_idx mx my ((t # ts) ! k))
            \<and> (\<forall>j<length (t # ts). ?in ((t # ts) ! j) \<longrightarrow> cd' \<le> ?d ((t # ts) ! j))
            \<and> (\<forall>j<k. ?in ((t # ts) ! j) \<longrightarrow> cd' < ?d ((t # ts) ! j))"
        by blast
      with better show ?thesis by simp
    next
      case nobetter: False
      with IH have "(hi', cd', ri') = (hi, cd, ri)" by auto
      with False nobetter show ?thesis by auto
    qed
  qed
qed

section \<open>What a click does, and the invariant of reachable states\<close>

lemma handle_click_not_playing: "\<not> playing g \<Longrightarrow> handle_click g pos now = start_round g now"
  by (simp add: handle_click_def)

lemma handle_click_miss:
  assumes "playing g" and "\<not> (\<exists>t\<in>set (targets g). spec_in_outer mx my t)"
  shows "handle_click g (mx, my) now =
           g\<lparr>score := score g + MISS_SCORE, misses := misses g + 1,
             floating_texts := floating_texts g @ [(''-5'', RED, mx, my, now)]\<rparr>"
proof -
  obtain hi' cd' ri' where sc:
    "click_scan mx my 0 (targets g) (- 1, 10 ^ 12, None) = (hi', cd', ri')"
    by (cases "click_scan mx my 0 (targets g) (- 1, 10 ^ 12, None)") auto
  from click_scan_spec [OF sc] assms(2) have "ri' = None" by auto
  with sc assms(1) show ?thesis
    by (simp add: handle_click_def make_float_text_def miss_text)
qed

lemma handle_click_hit:
  assumes "playing g"
    and "\<exists>t\<in>set (targets g). spec_in_outer mx my t \<and> spec_dist2 mx my t < 10 ^ 12"
  shows "\<exists>k<length (targets g).
           spec_in_outer mx my (targets g ! k)
           \<and> (\<forall>j<length (targets g). spec_in_outer mx my (targets g ! j)
                 \<longrightarrow> spec_dist2 mx my (targets g ! k) \<le> spec_dist2 mx my (targets g ! j))
           \<and> (\<forall>j<k. spec_in_outer mx my (targets g ! j)
                 \<longrightarrow> spec_dist2 mx my (targets g ! k) < spec_dist2 mx my (targets g ! j))
           \<and> handle_click g (mx, my) now =
               g\<lparr>targets := take k (targets g) @ drop (Suc k) (targets g),
                 score := score g + spec_award mx my (targets g ! k),
                 hits := hits g + 1,
                 floating_texts := floating_texts g @
                   [(CHR ''+'' # str_int (spec_award mx my (targets g ! k)),
                     if spec_award mx my (targets g ! k) = 10 then GREEN
                     else if spec_award mx my (targets g ! k) = 5 then CYAN else WHITE,
                     x (targets g ! k), y (targets g ! k), now)]\<rparr>"
proof -
  obtain hi' cd' ri' where sc:
    "click_scan mx my 0 (targets g) (- 1, 10 ^ 12, None) = (hi', cd', ri')"
    by (cases "click_scan mx my 0 (targets g) (- 1, 10 ^ 12, None)") auto
  from click_scan_spec [OF sc] assms(2)
  obtain k where k: "k < length (targets g)" "hi' = int k"
    "spec_in_outer mx my (targets g ! k)" "ri' = Some (ring_idx mx my (targets g ! k))"
    "cd' = spec_dist2 mx my (targets g ! k)"
    "\<forall>j<length (targets g). spec_in_outer mx my (targets g ! j)
        \<longrightarrow> cd' \<le> spec_dist2 mx my (targets g ! j)"
    "\<forall>j<k. spec_in_outer mx my (targets g ! j) \<longrightarrow> cd' < spec_dist2 mx my (targets g ! j)"
    by auto
  have "handle_click g (mx, my) now =
               g\<lparr>targets := take k (targets g) @ drop (Suc k) (targets g),
                 score := score g + spec_award mx my (targets g ! k),
                 hits := hits g + 1,
                 floating_texts := floating_texts g @
                   [(CHR ''+'' # str_int (spec_award mx my (targets g ! k)),
                     if spec_award mx my (targets g ! k) = 10 then GREEN
                     else if spec_award mx my (targets g ! k) = 5 then CYAN else WHITE,
                     x (targets g ! k), y (targets g ! k), now)]\<rparr>"
    using sc k(2,4) assms(1)
    by (simp add: handle_click_def pop_def make_float_text_def ring_award Let_def)
  with k show ?thesis by blast
qed

text \<open>
  The index that \<open>handle_click\<close> pops and the ring index it looks up are always in range,
  so the \<^verbatim>\<open>IndexError\<close> of \<^verbatim>\<open>list.pop\<close> and of the tuple lookup cannot occur.
\<close>

lemma click_scan_hit_in_range:
  assumes "click_scan mx my 0 ts (- 1, c, None) = (hi, cd, Some ring)"
  shows "0 \<le> hi \<and> nat hi < length ts \<and> ring < length RING_SCORES"
proof -
  from click_scan_spec [OF assms] obtain k where
    "k < length ts" "hi = int k" "ring = ring_idx mx my (ts ! k)"
    by (auto split: if_splits)
  then show ?thesis by (simp add: ring_idx_def RING_SCORES_def)
qed

lemma target_ok_dist:
  assumes "target_ok t" and "spec_in_outer mx my t"
  shows "spec_dist2 mx my t < 10 ^ 12"
proof -
  from assms(1) have "0 \<le> r t" "r t \<le> 36"
    by (simp_all add: target_ok_def TARGET_MIN_RADIUS_def TARGET_MAX_RADIUS_def)
  then have "(r t)\<^sup>2 \<le> 36\<^sup>2" by (intro power_mono) auto
  with assms(2) show ?thesis by (simp add: spec_in_outer_def)
qed

lemma handle_click_game_inv: "game_inv g \<Longrightarrow> game_inv (handle_click g pos now)"
proof (cases "playing g")
  case False
  assume "game_inv g"
  with False show ?thesis
    by (simp add: handle_click_not_playing start_round_def game_inv_def)
next
  case True
  assume inv: "game_inv g"
  obtain mx my where pos: "pos = (mx, my)" by (cases pos)
  show ?thesis
  proof (cases "\<exists>t\<in>set (targets g). spec_in_outer mx my t")
    case False
    from handle_click_miss [OF True False] inv show ?thesis
      by (simp add: pos game_inv_def)
  next
    case hit: True
    with inv have "\<exists>t\<in>set (targets g). spec_in_outer mx my t \<and> spec_dist2 mx my t < 10 ^ 12"
      using target_ok_dist by (auto simp: game_inv_def list_all_iff)
    from handle_click_hit [OF True this, of now] obtain k where
      "handle_click g (mx, my) now =
               g\<lparr>targets := take k (targets g) @ drop (Suc k) (targets g),
                 score := score g + spec_award mx my (targets g ! k),
                 hits := hits g + 1,
                 floating_texts := floating_texts g @
                   [(CHR ''+'' # str_int (spec_award mx my (targets g ! k)),
                     if spec_award mx my (targets g ! k) = 10 then GREEN
                     else if spec_award mx my (targets g ! k) = 5 then CYAN else WHITE,
                     x (targets g ! k), y (targets g ! k), now)]\<rparr>"
      by blast
    with inv show ?thesis
      by (auto simp: pos game_inv_def list_all_iff dest: in_set_takeD in_set_dropD)
  qed
qed

lemma handle_event_game_inv: "game_inv g \<Longrightarrow> game_inv (handle_event now g ev)"
  by (cases ev) (auto simp: handle_click_game_inv, auto simp: game_inv_def)

lemma handle_events_game_inv: "game_inv g \<Longrightarrow> game_inv (handle_events g evs now)"
  unfolding handle_events_def
  by (induction evs arbitrary: g) (simp_all add: handle_event_game_inv)

lemma spawn_target_ok:
  assumes "unit_draws rnd"
  shows "target_ok \<lparr>x = x0, y = y0,
           r = uniform TARGET_MIN_RADIUS TARGET_MAX_RADIUS (u_r rnd), spawn_time = now,
           lifetime = TARGET_LIFETIME * uniform 0.85 1.15 (u_life rnd)\<rparr>"
  using assms
  by (simp add: target_ok_def unit_draws_def uniform_def config_defs)

lemma update_game_inv:
  assumes "game_inv g" and "unit_draws rnd"
  shows "game_inv (update g rnd dt now)"
proof (cases "playing g \<and> \<not> paused g")
  case False
  with assms(1) show ?thesis by (auto simp: update_not_playing update_paused)
next
  case True
  with assms(1) spawn_target_ok [OF assms(2)] show ?thesis
    by (auto simp: update_blocks game_inv_def difficulty_block_def spawn_block_def
        expire_block_eq end_round_block_def spawn_target_def Let_def list_all_iff
        MAX_TARGETS_ON_SCREEN_def ROUND_TIME_def
        intro: le_trans [OF length_filter_le])
qed

lemma reachable_game_inv: "reachable g \<Longrightarrow> game_inv g"
proof (induction rule: reachable.induct)
  case (reach_reset g)
  show ?case by (simp add: reset_def game_inv_def)
next
  case (reach_start_round g now)
  then show ?case by (simp add: start_round_def game_inv_def)
next
  case (reach_update g rnd dt now)
  then show ?case by (simp add: update_game_inv)
next
  case (reach_handle_click g pos now)
  then show ?case by (simp add: handle_click_game_inv)
next
  case (reach_handle_events g evs now)
  then show ?case by (simp add: handle_events_game_inv)
next
  case (reach_draw g now)
  then show ?case by (simp add: draw_def game_inv_def)
qed

section \<open>Capacity, pause flag and accuracy\<close>

text \<open>
  C3: in every state reachable by any sequence of calls the number of live targets is at
  most \<open>MAX_TARGETS_ON_SCREEN = 7\<close>; one \<open>update\<close> adds at most one target, and none when
  the list is already full.
\<close>

theorem C3_capacity_invariant:
  "(reachable g \<longrightarrow> length (targets g) \<le> 7)
   \<and> MAX_TARGETS_ON_SCREEN = 7
   \<and> length (targets (update g rnd dt now)) \<le> length (targets g) + 1
   \<and> (length (targets g) \<ge> MAX_TARGETS_ON_SCREEN
        \<longrightarrow> length (targets (update g rnd dt now)) \<le> length (targets g))
   \<and> (length (targets g) \<ge> MAX_TARGETS_ON_SCREEN
        \<longrightarrow> spawn_block g rnd now = g)"
proof -
  have a: "reachable g \<longrightarrow> length (targets g) \<le> 7"
    using reachable_game_inv [of g] by (simp add: game_inv_def MAX_TARGETS_ON_SCREEN_def)
  have b: "length (targets (update g rnd dt now)) \<le> length (targets g) + 1"
  proof (cases "playing g \<and> \<not> paused g")
    case False
    then show ?thesis by (auto simp: update_not_playing update_paused)
  next
    case True
    then show ?thesis
      by (auto simp: update_blocks difficulty_block_def spawn_block_def
        expire_block_eq end_round_block_def spawn_target_def Let_def ROUND_TIME_def
        intro: le_trans [OF length_filter_le])
  qed
  have c: "length (targets g) \<ge> MAX_TARGETS_ON_SCREEN
        \<longrightarrow> length (targets (update g rnd dt now)) \<le> length (targets g)"
  proof (cases "playing g \<and> \<not> paused g")
    case False
    then show ?thesis by (auto simp: update_not_playing update_paused)
  next
    case True
    then show ?thesis
      by (auto simp: update_blocks difficulty_block_def spawn_block_def
        expire_block_eq end_round_block_def spawn_target_def Let_def ROUND_TIME_def)
  qed
  have d: "length (targets g) \<ge> MAX_TARGETS_ON_SCREEN \<longrightarrow> spawn_block g rnd now = g"
    by (simp add: spawn_block_def)
  from a b c d show ?thesis by (simp add: MAX_TARGETS_ON_SCREEN_def)
qed

lemma demo_reachable: "reachable demo_round"
  unfolding demo_round_def Game_init_def
  by (intro reachable.intros) (simp add: unit_draws_def demo_draws_def)

theorem C3_capacity_witness:
  "reachable demo_round \<and> length (targets demo_round) = 1 \<and> length (targets demo_round) \<le> 7"
proof -
  have re: "reachable demo_round" by (rule demo_reachable)
  have "length (targets demo_round) = 1" by (simp add: demo_round_eq)
  moreover from C3_capacity_invariant [of demo_round demo_draws 1 2] re
  have "length (targets demo_round) \<le> 7" by blast
  ultimately show ?thesis using re by blast
qed

text \<open>
  C8: in every reachable state paused implies playing; the P key does nothing when no
  round is being played, and an update of a paused game changes nothing, so a paused
  round cannot end.
\<close>

theorem C8_paused_implies_playing:
  "(reachable g \<longrightarrow> paused g \<longrightarrow> playing g)
   \<and> (\<not> playing g \<longrightarrow> handle_event now g (KEYDOWN K_p) = g)
   \<and> (paused g \<longrightarrow> update g rnd dt now = g)
   \<and> paused (start_round g now) = paused g"
  using reachable_game_inv [of g]
  by (auto simp: game_inv_def update_paused start_round_def)

lemma demo_paused_eq: "demo_paused = demo_round\<lparr>paused := True\<rparr>"
  by (simp add: demo_paused_def handle_events_def demo_round_eq)

lemma demo_paused_reachable: "reachable demo_paused"
  unfolding demo_paused_def by (intro reachable.intros demo_reachable)

theorem C8_paused_witness:
  "reachable demo_paused \<and> paused demo_paused \<and> playing demo_paused
   \<and> update demo_paused demo_draws 1 20 = demo_paused"
proof -
  have re: "reachable demo_paused" by (rule demo_paused_reachable)
  have pa: "paused demo_paused" by (simp add: demo_paused_eq)
  from C8_paused_implies_playing [of demo_paused 20 demo_draws 1] re pa
  show ?thesis by blast
qed

text \<open>
  C10: the accuracy shown in the HUD never divides by zero; in a reachable state it is 0
  when there has been no click, and \<open>hits / (hits + misses) * 100\<close> otherwise, whatever
  the number of timeouts.
\<close>

theorem C10_accuracy_total:
  "acc g = Inr (real_of_int (hits g) / real_of_int (max 1 (hits g + misses g)) * 100)
   \<and> (reachable g \<longrightarrow> hits g + misses g = 0 \<longrightarrow> acc g = Inr 0)
   \<and> (hits g + misses g \<ge> 1 \<longrightarrow>
        acc g = Inr (real_of_int (hits g) / real_of_int (hits g + misses g) * 100))
   \<and> acc (g\<lparr>timeouts := n\<rparr>) = acc g"
proof -
  have a: "acc g = Inr (real_of_int (hits g) / real_of_int (max 1 (hits g + misses g)) * 100)"
    by (simp add: acc_def truediv_def max_def)
  have b: "reachable g \<longrightarrow> hits g + misses g = 0 \<longrightarrow> acc g = Inr 0"
  proof (intro impI)
    assume "reachable g" and z: "hits g + misses g = 0"
    then have "0 \<le> hits g" "0 \<le> misses g"
      using reachable_game_inv [of g] by (simp_all add: game_inv_def)
    with z have "hits g = 0" by linarith
    with z show "acc g = Inr 0" by (simp add: acc_def truediv_def)
  qed
  have c: "hits g + misses g \<ge> 1 \<longrightarrow>
        acc g = Inr (real_of_int (hits g) / real_of_int (hits g + misses g) * 100)"
    by (simp add: acc_def truediv_def max_def)
  have d: "acc (g\<lparr>timeouts := n\<rparr>) = acc g"
    by (simp add: acc_def)
  from a b c d show ?thesis by blast
qed

theorem C10_accuracy_witness:
  "reachable demo_round \<and> hits demo_round + misses demo_round = 0
   \<and> acc demo_round = Inr 0
   \<and> acc (demo_round\<lparr>hits := 2, misses := 1\<rparr>) = Inr (200 / 3)"
proof -
  have re: "reachable demo_round" by (rule demo_reachable)
  have z: "hits demo_round + misses demo_round = 0" by (simp add: demo_round_eq)
  from C10_accuracy_total [of demo_round 0] re z have "acc demo_round = Inr 0" by blast
  moreover from C10_accuracy_total [of "demo_round\<lparr>hits := 2, misses := 1\<rparr>" 0]
  have "acc (demo_round\<lparr>hits := 2, misses := 1\<rparr>) = Inr (200 / 3)" by simp
  ultimately show ?thesis using re z by blast
qed

section \<open>Clicks\<close>

lemma demo_click_hit:
  "handle_click (demo_round\<lparr>paused := b\<rparr>) (450, 320) 2 =
     demo_round\<lparr>paused := b, targets := [], score := 10, hits := 1,
       floating_texts := [(''+10'', GREEN, 450, 320, 2)]\<rparr>"
  by (simp add: handle_click_def demo_round_eq demo_target_def Let_def pop_def
      make_float_text_def RING_FRACS_def RING_SCORES_def award_text)

lemma demo_click_miss:
  "handle_click (demo_round\<lparr>paused := b\<rparr>) (0, 0) 2 =
     demo_round\<lparr>paused := b, score := - 5, misses := 1,
       floating_texts := [(''-5'', RED, 0, 0, 2)]\<rparr>"
  by (simp add: handle_click_def demo_round_eq demo_target_def Let_def pop_def
      make_float_text_def RING_FRACS_def MISS_SCORE_def miss_text [unfolded MISS_SCORE_def])

text \<open>
  C2: a click in a playing round either hits the target that is closest to the click
  among those whose outer ring contains it, scores that target's ring (10, 5 or 1), counts
  one hit and removes exactly that target; or, when no outer ring contains the click, is
  a miss that costs 5 points and counts one miss.
\<close>

theorem C2_click_resolution:
  assumes "reachable g" and "playing g"
  shows "if (\<exists>t\<in>set (targets g). spec_in_outer mx my t)
         then (\<exists>k<length (targets g).
                 spec_in_outer mx my (targets g ! k)
                 \<and> (\<forall>j<length (targets g). spec_in_outer mx my (targets g ! j)
                       \<longrightarrow> spec_dist2 mx my (targets g ! k) \<le> spec_dist2 mx my (targets g ! j))
                 \<and> targets (handle_click g (mx, my) now)
                     = take k (targets g) @ drop (Suc k) (targets g)
                 \<and> score (handle_click g (mx, my) now)
                     = score g + spec_award mx my (targets g ! k)
                 \<and> hits (handle_click g (mx, my) now) = hits g + 1
                 \<and> misses (handle_click g (mx, my) now) = misses g)
         else (targets (handle_click g (mx, my) now) = targets g
               \<and> score (handle_click g (mx, my) now) = score g - 5
               \<and> misses (handle_click g (mx, my) now) = misses g + 1
               \<and> hits (handle_click g (mx, my) now) = hits g)"
proof (cases "\<exists>t\<in>set (targets g). spec_in_outer mx my t")
  case False
  from handle_click_miss [OF assms(2) False, of now] False show ?thesis
    by (simp add: MISS_SCORE_def)
next
  case True
  from reachable_game_inv [OF assms(1)] have "list_all target_ok (targets g)"
    by (simp add: game_inv_def)
  with True have "\<exists>t\<in>set (targets g). spec_in_outer mx my t \<and> spec_dist2 mx my t < 10 ^ 12"
    using target_ok_dist by (auto simp: list_all_iff)
  from handle_click_hit [OF assms(2) this, of now] obtain k where k:
    "k < length (targets g)" "spec_in_outer mx my (targets g ! k)"
    "\<forall>j<length (targets g). spec_in_outer mx my (targets g ! j)
        \<longrightarrow> spec_dist2 mx my (targets g ! k) \<le> spec_dist2 mx my (targets g ! j)"
    and eq: "handle_click g (mx, my) now =
               g\<lparr>targets := take k (targets g) @ drop (Suc k) (targets g),
                 score := score g + spec_award mx my (targets g ! k),
                 hits := hits g + 1,
                 floating_texts := floating_texts g @
                   [(CHR ''+'' # str_int (spec_award mx my (targets g ! k)),
                     if spec_award mx my (targets g ! k) = 10 then GREEN
                     else if spec_award mx my (targets g ! k) = 5 then CYAN else WHITE,
                     x (targets g ! k), y (targets g ! k), now)]\<rparr>"
    by blast
  have "\<exists>k<length (targets g).
                 spec_in_outer mx my (targets g ! k)
                 \<and> (\<forall>j<length (targets g). spec_in_outer mx my (targets g ! j)
                       \<longrightarrow> spec_dist2 mx my (targets g ! k) \<le> spec_dist2 mx my (targets g ! j))
                 \<and> targets (handle_click g (mx, my) now)
                     = take k (targets g) @ drop (Suc k) (targets g)
                 \<and> score (handle_click g (mx, my) now)
                     = score g + spec_award mx my (targets g ! k)
                 \<and> hits (handle_click g (mx, my) now) = hits g + 1
                 \<and> misses (handle_click g (mx, my) now) = misses g"
    using k by (intro exI [of _ k]) (simp add: eq)
  with True show ?thesis by simp
qed

theorem C2_click_witness:
  "reachable demo_round \<and> playing demo_round
   \<and> (\<exists>t\<in>set (targets demo_round). spec_in_outer 450 320 t)
   \<and> targets (handle_click demo_round (450, 320) 2) = []
   \<and> score (handle_click demo_round (450, 320) 2) = score demo_round + 10
   \<and> \<not> (\<exists>t\<in>set (targets demo_round). spec_in_outer 0 0 t)
   \<and> score (handle_click demo_round (0, 0) 2) = score demo_round - 5"
proof -
  have re: "reachable demo_round" by (rule demo_reachable)
  have pl: "playing demo_round" by (simp add: demo_round_eq)
  have ts: "targets demo_round = [demo_target]" by (simp add: demo_round_eq)
  have inn: "spec_in_outer 450 320 demo_target" "\<not> spec_in_outer 0 0 demo_target"
    "spec_award 450 320 demo_target = 10"
    by (simp_all add: spec_in_outer_def spec_dist2_def spec_award_def demo_target_def)
  from C2_click_resolution [OF re pl, of 450 320 2] inn
  have hit: "targets (handle_click demo_round (450, 320) 2) = []
     \<and> score (handle_click demo_round (450, 320) 2) = score demo_round + 10"
    by (simp add: ts)
  from C2_click_resolution [OF re pl, of 0 0 2] inn
  have miss: "score (handle_click demo_round (0, 0) 2) = score demo_round - 5"
    by (simp add: ts)
  from re pl inn hit miss show ?thesis by (simp add: ts)
qed

text \<open>
  C9: \<open>handle_click\<close> never reads the pause flag, and \<open>handle_events\<close> passes a left
  click to it in any state; in the paused concrete round a click removes the target,
  scores, counts and leaves a floating text, while \<open>update\<close> does nothing.
\<close>

theorem C9_click_while_paused:
  "handle_click (g\<lparr>paused := b\<rparr>) pos now = (handle_click g pos now)\<lparr>paused := b\<rparr>
   \<and> handle_event now g (MOUSEBUTTONDOWN 1 pos) = handle_click g pos now
   \<and> playing demo_paused \<and> paused demo_paused \<and> targets demo_paused = [demo_target]
   \<and> update demo_paused demo_draws 1 2 = demo_paused
   \<and> handle_events demo_paused [MOUSEBUTTONDOWN 1 (450, 320)] 2 =
        demo_paused\<lparr>targets := [], score := 10, hits := 1,
          floating_texts := [(''+10'', GREEN, 450, 320, 2)]\<rparr>
   \<and> handle_events demo_paused [MOUSEBUTTONDOWN 1 (0, 0)] 2 =
        demo_paused\<lparr>score := - 5, misses := 1, floating_texts := [(''-5'', RED, 0, 0, 2)]\<rparr>"
proof -
  have a: "handle_click (g\<lparr>paused := b\<rparr>) pos now = (handle_click g pos now)\<lparr>paused := b\<rparr>"
    by (cases pos)
      (simp add: handle_click_def start_round_def make_float_text_def Let_def
        split: prod.split option.split)
  have b: "handle_event now g (MOUSEBUTTONDOWN 1 pos) = handle_click g pos now"
    by simp
  have c: "playing demo_paused \<and> paused demo_paused \<and> targets demo_paused = [demo_target]"
    by (simp add: demo_paused_eq demo_round_eq)
  then have d: "update demo_paused demo_draws 1 2 = demo_paused"
    by (simp add: update_paused)
  have e: "handle_events demo_paused [MOUSEBUTTONDOWN 1 (450, 320)] 2 =
        demo_paused\<lparr>targets := [], score := 10, hits := 1,
          floating_texts := [(''+10'', GREEN, 450, 320, 2)]\<rparr>"
    by (simp add: handle_events_def demo_paused_eq demo_click_hit)
  have f: "handle_events demo_paused [MOUSEBUTTONDOWN 1 (0, 0)] 2 =
        demo_paused\<lparr>score := - 5, misses := 1, floating_texts := [(''-5'', RED, 0, 0, 2)]\<rparr>"
    by (simp add: handle_events_def demo_paused_eq demo_click_miss)
  from a b c d e f show ?thesis by blast
qed

section \<open>What an unpaused update does\<close>

lemma update_unpaused_eq:
  assumes "playing g" and "\<not> paused g" and "unit_draws rnd"
  shows "\<exists>new. length new \<le> 1 \<and> (\<forall>t\<in>set new. spawn_time t = now \<and> target_ok t)
     \<and> (length (targets g) \<ge> MAX_TARGETS_ON_SCREEN \<longrightarrow> new = [])
     \<and> update g rnd dt now =
       g\<lparr>elapsed := now - start_time g,
         spawn_interval :=
           (if 0 < now - start_time g
            then clamp (SPAWN_INTERVAL_START
                   - real_of_int \<lfloor>(now - start_time g) / real_of_int SPAWN_ACCEL_EVERY\<rfloor>
                       * SPAWN_ACCEL_STEP) SPAWN_INTERVAL_MIN SPAWN_INTERVAL_START
            else spawn_interval g),
         last_spawn := (if new = [] then last_spawn g else now),
         targets := filter (\<lambda>t. \<not> spec_expired now t) (targets g) @ new,
         score := score g + TIMEOUT_SCORE * int (length (filter (spec_expired now) (targets g))),
         timeouts := timeouts g + int (length (filter (spec_expired now) (targets g))),
         floating_texts := floating_texts g @
           map (\<lambda>t. (''-3'', RED, x t, y t, now)) (filter (spec_expired now) (targets g)),
         best_score :=
           (if now - start_time g \<ge> 15
            then max (best_score g)
                   (score g + TIMEOUT_SCORE * int (length (filter (spec_expired now) (targets g))))
            else best_score g),
         playing := \<not> (now - start_time g \<ge> 15)\<rparr>"
proof -
  define g2 where "g2 = difficulty_block (g\<lparr>elapsed := now - start_time g\<rparr>)"
  define t where "t = \<lparr>x = uniform (uniform TARGET_MIN_RADIUS TARGET_MAX_RADIUS (u_r rnd) + 8)
                   (WIDTH - uniform TARGET_MIN_RADIUS TARGET_MAX_RADIUS (u_r rnd) - 8) (u_x rnd),
             y = uniform (uniform TARGET_MIN_RADIUS TARGET_MAX_RADIUS (u_r rnd) + 8 + 40)
                   (HEIGHT - uniform TARGET_MIN_RADIUS TARGET_MAX_RADIUS (u_r rnd) - 8) (u_y rnd),
             r = uniform TARGET_MIN_RADIUS TARGET_MAX_RADIUS (u_r rnd), spawn_time = now,
             lifetime = TARGET_LIFETIME * uniform 0.85 1.15 (u_life rnd)\<rparr>"
  define new where "new = (if now - last_spawn g2 \<ge> spawn_interval g2
                 \<and> length (targets g2) < MAX_TARGETS_ON_SCREEN then [t] else [])"
  let ?ex = "filter (spec_expired now) (targets g)"
  have ok: "target_ok t" unfolding t_def by (rule spawn_target_ok [OF assms(3)])
  have st: "spawn_time t = now" by (simp add: t_def)
  from ok st have fresh: "\<not> spec_expired now t"
    by (simp add: spec_expired_def target_ok_def)
  have sp: "spawn_target h rnd now = h\<lparr>targets := targets h @ [t]\<rparr>" for h
    by (simp add: spawn_target_def t_def Let_def)
  have g2: "g2 = g\<lparr>elapsed := now - start_time g,
         spawn_interval :=
           (if 0 < now - start_time g
            then clamp (SPAWN_INTERVAL_START
                   - real_of_int \<lfloor>(now - start_time g) / real_of_int SPAWN_ACCEL_EVERY\<rfloor>
                       * SPAWN_ACCEL_STEP) SPAWN_INTERVAL_MIN SPAWN_INTERVAL_START
            else spawn_interval g)\<rparr>"
    by (simp add: g2_def difficulty_block_def SPAWN_ACCEL_EVERY_def)
  have g3: "spawn_block g2 rnd now =
      g2\<lparr>last_spawn := (if new = [] then last_spawn g2 else now), targets := targets g2 @ new\<rparr>"
    by (simp add: spawn_block_def new_def sp)
  have tg: "targets g2 = targets g" "score g2 = score g" "timeouts g2 = timeouts g"
    "floating_texts g2 = floating_texts g" "last_spawn g2 = last_spawn g"
    "best_score g2 = best_score g" "elapsed g2 = now - start_time g"
    by (simp_all add: g2)
  have flt: "filter (spec_expired now) new = []"
    "filter (\<lambda>t. \<not> spec_expired now t) new = new"
    using fresh by (simp_all add: new_def)
  have g4: "expire_block (spawn_block g2 rnd now) now =
      g2\<lparr>last_spawn := (if new = [] then last_spawn g else now),
         targets := filter (\<lambda>t. \<not> spec_expired now t) (targets g) @ new,
         score := score g + TIMEOUT_SCORE * int (length ?ex),
         timeouts := timeouts g + int (length ?ex),
         floating_texts := floating_texts g @ map (\<lambda>t. (''-3'', RED, x t, y t, now)) ?ex\<rparr>"
    by (simp add: expire_block_eq g3 tg flt)
  have 4: "update g rnd dt now =
       g\<lparr>elapsed := now - start_time g,
         spawn_interval :=
           (if 0 < now - start_time g
            then clamp (SPAWN_INTERVAL_START
                   - real_of_int \<lfloor>(now - start_time g) / real_of_int SPAWN_ACCEL_EVERY\<rfloor>
                       * SPAWN_ACCEL_STEP) SPAWN_INTERVAL_MIN SPAWN_INTERVAL_START
            else spawn_interval g),
         last_spawn := (if new = [] then last_spawn g else now),
         targets := filter (\<lambda>t. \<not> spec_expired now t) (targets g) @ new,
         score := score g + TIMEOUT_SCORE * int (length ?ex),
         timeouts := timeouts g + int (length ?ex),
         floating_texts := floating_texts g @ map (\<lambda>t. (''-3'', RED, x t, y t, now)) ?ex,
         best_score :=
           (if now - start_time g \<ge> 15
            then max (best_score g) (score g + TIMEOUT_SCORE * int (length ?ex))
            else best_score g),
         playing := \<not> (now - start_time g \<ge> 15)\<rparr>"
    unfolding update_blocks [OF assms(1,2)] g2_def [symmetric] g4
    by (rule game.equality) (use assms(1) in \<open>simp_all add: end_round_block_def ROUND_TIME_def tg g2\<close>)
  have 1: "length new \<le> 1" by (simp add: new_def)
  have 2: "\<forall>t\<in>set new. spawn_time t = now \<and> target_ok t" using ok st by (simp add: new_def)
  have 3: "length (targets g) \<ge> MAX_TARGETS_ON_SCREEN \<longrightarrow> new = []"
    by (simp add: new_def tg)
  from 1 2 3 4 show ?thesis by blast
qed

section \<open>Expiry, and the arguments dt and now\<close>

lemma demo_unit_draws: "unit_draws demo_draws"
  by (simp add: unit_draws_def demo_draws_def)

lemma demo_spawn:
  "spawn_target h demo_draws now = h\<lparr>targets := targets h @ [demo_target\<lparr>spawn_time := now\<rparr>]\<rparr>"
  by (simp add: spawn_target_def uniform_def demo_draws_def demo_target_def Let_def config_defs)

text \<open>
  C7: an update during unpaused play removes exactly the targets whose age exceeds their
  lifetime; each of them costs 3 points, counts one timeout and leaves one floating text
  at its position; the other targets stay, in order, followed by the target that this
  update may have spawned.
\<close>

theorem C7_expiry:
  assumes "playing g" and "\<not> paused g" and "unit_draws rnd"
  shows "score (update g rnd dt now)
           = score g - 3 * int (length (filter (spec_expired now) (targets g)))
         \<and> timeouts (update g rnd dt now)
           = timeouts g + int (length (filter (spec_expired now) (targets g)))
         \<and> floating_texts (update g rnd dt now)
           = floating_texts g
               @ map (\<lambda>t. (''-3'', RED, x t, y t, now)) (filter (spec_expired now) (targets g))
         \<and> (\<exists>new. length new \<le> 1 \<and> (\<forall>t\<in>set new. spawn_time t = now)
               \<and> targets (update g rnd dt now)
                   = filter (\<lambda>t. \<not> spec_expired now t) (targets g) @ new)
         \<and> hits (update g rnd dt now) = hits g \<and> misses (update g rnd dt now) = misses g"
proof -
  from update_unpaused_eq [OF assms, of now dt] obtain new where
    new: "length new \<le> 1" "\<forall>t\<in>set new. spawn_time t = now \<and> target_ok t"
    and eq: "update g rnd dt now =
       g\<lparr>elapsed := now - start_time g,
         spawn_interval :=
           (if 0 < now - start_time g
            then clamp (SPAWN_INTERVAL_START
                   - real_of_int \<lfloor>(now - start_time g) / real_of_int SPAWN_ACCEL_EVERY\<rfloor>
                       * SPAWN_ACCEL_STEP) SPAWN_INTERVAL_MIN SPAWN_INTERVAL_START
            else spawn_interval g),
         last_spawn := (if new = [] then last_spawn g else now),
         targets := filter (\<lambda>t. \<not> spec_expired now t) (targets g) @ new,
         score := score g + TIMEOUT_SCORE * int (length (filter (spec_expired now) (targets g))),
         timeouts := timeouts g + int (length (filter (spec_expired now) (targets g))),
         floating_texts := floating_texts g @
           map (\<lambda>t. (''-3'', RED, x t, y t, now)) (filter (spec_expired now) (targets g)),
         best_score :=
           (if now - start_time g \<ge> 15
            then max (best_score g)
                   (score g + TIMEOUT_SCORE * int (length (filter (spec_expired now) (targets g))))
            else best_score g),
         playing := \<not> (now - start_time g \<ge> 15)\<rparr>"
    by blast
  have "\<exists>new. length new \<le> 1 \<and> (\<forall>t\<in>set new. spawn_time t = now)
               \<and> targets (update g rnd dt now)
                   = filter (\<lambda>t. \<not> spec_expired now t) (targets g) @ new"
    using new by (intro exI [of _ new]) (simp add: eq)
  then show ?thesis by (simp add: eq TIMEOUT_SCORE_def)
qed

theorem C7_expiry_witness:
  "playing demo_round \<and> \<not> paused demo_round \<and> unit_draws demo_draws
   \<and> filter (spec_expired 3) (targets demo_round) = [demo_target]
   \<and> score (update demo_round demo_draws (1/120) 3) = score demo_round - 3
   \<and> timeouts (update demo_round demo_draws (1/120) 3) = timeouts demo_round + 1
   \<and> floating_texts (update demo_round demo_draws (1/120) 3) = [(''-3'', RED, 450, 320, 3)]"
proof -
  have pl: "playing demo_round" "\<not> paused demo_round" by (simp_all add: demo_round_eq)
  have ex: "filter (spec_expired 3) (targets demo_round) = [demo_target]"
    by (simp add: demo_round_eq spec_expired_def demo_target_def)
  have ft: "floating_texts demo_round = []" by (simp add: demo_round_eq)
  from C7_expiry [OF pl demo_unit_draws, of "1/120" 3] pl demo_unit_draws ex ft
  show ?thesis by (simp add: demo_target_def)
qed

text \<open>
  C6 (as the code has it): \<open>update\<close> never reads \<open>dt\<close> and never compares \<open>now\<close> with an
  earlier call; during unpaused play it sets the elapsed time to \<open>now - start_time\<close>,
  which is negative exactly when \<open>now\<close> lies before the start of the round.
\<close>

theorem C6_no_guard:
  "update g rnd dt now = update g rnd dt' now
   \<and> (playing g \<and> \<not> paused g \<longrightarrow>
        elapsed (update g rnd dt now) = now - start_time g
        \<and> (elapsed (update g rnd dt now) < 0 \<longleftrightarrow> now < start_time g))"
proof -
  have a: "update g rnd dt now = update g rnd dt' now" by (simp add: update_def)
  have b: "elapsed (update g rnd dt now) = now - start_time g" if "playing g" "\<not> paused g"
    using that
    by (simp add: update_blocks difficulty_block_def spawn_block_def expire_block_eq
        end_round_block_def spawn_target_def Let_def ROUND_TIME_def)
  from a b show ?thesis by auto
qed

theorem C6_no_guard_witness:
  "playing (start_round Game_init 10) \<and> \<not> paused (start_round Game_init 10)
   \<and> elapsed (update (start_round Game_init 10) demo_draws (- 1) 4) = - 6"
proof -
  have pl: "playing (start_round Game_init 10)" "\<not> paused (start_round Game_init 10)"
    "start_time (start_round Game_init 10) = 10"
    by (simp_all add: start_round_def Game_init_def reset_def)
  from C6_no_guard [of "start_round Game_init 10" demo_draws "- 1" 4 0] pl(1,2)
  have "elapsed (update (start_round Game_init 10) demo_draws (- 1) 4)
          = 4 - start_time (start_round Game_init 10)"
    by blast
  with pl show ?thesis by simp
qed

text \<open>
  A round that starts at clock 10 and is updated with \<open>dt = -1\<close> at clock 4 has elapsed
  time \<open>-6\<close>, and the update is not skipped; in the concrete round, whose last update was
  at clock 1, an update at clock 1/2 moves the elapsed time back and gives the target
  spawned at clock 1 the age \<open>-1/2\<close>.
\<close>

theorem C6_counterexample:
  "elapsed (update (start_round Game_init 10) demo_draws (- 1) 4) = - 6
   \<and> update (start_round Game_init 10) demo_draws (- 1) 4 \<noteq> start_round Game_init 10
   \<and> elapsed demo_round = 1
   \<and> elapsed (update demo_round demo_draws (- 1) (1/2)) = 1/2
   \<and> targets (update demo_round demo_draws (- 1) (1/2)) = [demo_target]
   \<and> 1/2 - spawn_time demo_target = - 1/2"
proof -
  have a: "elapsed (update (start_round Game_init 10) demo_draws (- 1) 4) = - 6"
    by (simp add: update_blocks difficulty_block_def spawn_block_def expire_block_eq
        end_round_block_def start_round_def Game_init_def reset_def ROUND_TIME_def
        SPAWN_INTERVAL_START_def)
  have "elapsed (start_round Game_init 10) = 0" by (simp add: start_round_def)
  with a have b: "update (start_round Game_init 10) demo_draws (- 1) 4 \<noteq> start_round Game_init 10"
    by auto
  have c: "update demo_round demo_draws (- 1) (1/2) = demo_round\<lparr>elapsed := 1/2\<rparr>"
    by (simp add: update_blocks demo_round_eq difficulty_block_def spawn_block_def
      expire_block_eq end_round_block_def spec_expired_def clamp_def
      demo_target_def config_defs)
  from a b show ?thesis by (simp add: c) (simp add: demo_round_eq demo_target_def)
qed

section \<open>Pausing\<close>

lemma demo_resumed_eq: "demo_resumed = demo_round"
  by (simp add: demo_resumed_def update_paused demo_paused_eq handle_events_def)
    (simp add: demo_round_eq)

lemma demo_update_20:
  "update demo_round demo_draws dt 20 =
     demo_round\<lparr>playing := False, elapsed := 20, spawn_interval := 0.69, last_spawn := 20,
       targets := [demo_target\<lparr>spawn_time := 20\<rparr>],
       score := - 3, timeouts := 1, best_score := 0,
       floating_texts := [(''-3'', RED, 450, 320, 20)]\<rparr>"
  by (simp add: update_blocks demo_round_eq difficulty_block_def spawn_block_def
      expire_block_eq end_round_block_def demo_spawn spec_expired_def clamp_def
      demo_target_def config_defs)

text \<open>
  C1 (as the code has it): an update of a paused game changes no field. The round's
  clock is the wall clock, though: the first update after the pause is toggled off sets
  the elapsed time to \<open>now - start_time\<close> and keeps exactly the targets with
  \<open>now - spawn_time \<le> lifetime\<close>, so the time spent paused counts against the round
  and against the targets.
\<close>

theorem C1_pause:
  "(paused g \<longrightarrow> update g rnd dt now = g)
   \<and> (playing g \<and> paused g \<longrightarrow> handle_event now g (KEYDOWN K_p) = g\<lparr>paused := False\<rparr>)
   \<and> (playing g \<and> paused g \<and> unit_draws rnd \<longrightarrow>
        elapsed (update (handle_event now g (KEYDOWN K_p)) rnd dt now) = now - start_time g
        \<and> (\<exists>new. length new \<le> 1 \<and>
              targets (update (handle_event now g (KEYDOWN K_p)) rnd dt now)
                = filter (\<lambda>t. \<not> now - spawn_time t > lifetime t) (targets g) @ new)
        \<and> timeouts (update (handle_event now g (KEYDOWN K_p)) rnd dt now)
            = timeouts g + int (length (filter (\<lambda>t. now - spawn_time t > lifetime t) (targets g))))"
proof -
  have a: "paused g \<longrightarrow> update g rnd dt now = g" by (simp add: update_paused)
  have b: "handle_event now g (KEYDOWN K_p) = g\<lparr>paused := False\<rparr>" if "playing g" "paused g"
    using that by simp
  have c: "elapsed (update (handle_event now g (KEYDOWN K_p)) rnd dt now) = now - start_time g
        \<and> (\<exists>new. length new \<le> 1 \<and>
              targets (update (handle_event now g (KEYDOWN K_p)) rnd dt now)
                = filter (\<lambda>t. \<not> now - spawn_time t > lifetime t) (targets g) @ new)
        \<and> timeouts (update (handle_event now g (KEYDOWN K_p)) rnd dt now)
            = timeouts g + int (length (filter (\<lambda>t. now - spawn_time t > lifetime t) (targets g)))"
    if "playing g" "paused g" "unit_draws rnd"
  proof -
    let ?h = "g\<lparr>paused := False\<rparr>"
    have h: "playing ?h" "\<not> paused ?h" using that by simp_all
    from update_unpaused_eq [OF h that(3), of now dt] obtain new where
      new: "length new \<le> 1"
      and eq: "update ?h rnd dt now =
       ?h\<lparr>elapsed := now - start_time ?h,
         spawn_interval :=
           (if 0 < now - start_time ?h
            then clamp (SPAWN_INTERVAL_START
                   - real_of_int \<lfloor>(now - start_time ?h) / real_of_int SPAWN_ACCEL_EVERY\<rfloor>
                       * SPAWN_ACCEL_STEP) SPAWN_INTERVAL_MIN SPAWN_INTERVAL_START
            else spawn_interval ?h),
         last_spawn := (if new = [] then last_spawn ?h else now),
         targets := filter (\<lambda>t. \<not> spec_expired now t) (targets ?h) @ new,
         score := score ?h + TIMEOUT_SCORE * int (length (filter (spec_expired now) (targets ?h))),
         timeouts := timeouts ?h + int (length (filter (spec_expired now) (targets ?h))),
         floating_texts := floating_texts ?h @
           map (\<lambda>t. (''-3'', RED, x t, y t, now)) (filter (spec_expired now) (targets ?h)),
         best_score :=
           (if now - start_time ?h \<ge> 15
            then max (best_score ?h)
                   (score ?h + TIMEOUT_SCORE * int (length (filter (spec_expired now) (targets ?h))))
            else best_score ?h),
         playing := \<not> (now - start_time ?h \<ge> 15)\<rparr>"
      by blast
    have sp: "spec_expired now = (\<lambda>t. now - spawn_time t > lifetime t)"
      by (simp add: spec_expired_def fun_eq_iff)
    have "\<exists>new. length new \<le> 1 \<and> targets (update ?h rnd dt now)
                = filter (\<lambda>t. \<not> now - spawn_time t > lifetime t) (targets g) @ new"
      using new by (intro exI [of _ new]) (simp add: eq sp)
    then show ?thesis
      unfolding b [OF that(1,2)] by (simp add: eq sp)
  qed
  from a b c show ?thesis by blast
qed

theorem C1_pause_witness:
  "playing demo_paused \<and> paused demo_paused \<and> unit_draws demo_draws
   \<and> update demo_paused demo_draws 19 20 = demo_paused
   \<and> start_time demo_paused = 0
   \<and> elapsed (update (handle_event 20 demo_paused (KEYDOWN K_p)) demo_draws (1/120) 20) = 20"
proof -
  have pl: "playing demo_paused" "paused demo_paused" "start_time demo_paused = 0"
    by (simp_all add: demo_paused_eq demo_round_eq)
  from C1_pause [of demo_paused demo_draws 19 20] pl
  have a: "update demo_paused demo_draws 19 20 = demo_paused" by blast
  from C1_pause [of demo_paused demo_draws "1/120" 20] pl demo_unit_draws
  have "elapsed (update (handle_event 20 demo_paused (KEYDOWN K_p)) demo_draws (1/120) 20)
          = 20 - start_time demo_paused"
    by blast
  with a pl demo_unit_draws show ?thesis by simp
qed

text \<open>
  The concrete round is paused at clock 1, with elapsed time 1 and a target of age 0 and
  lifetime 1.5, and resumed at clock 20. The first update after the pause has elapsed
  time 20, not 1: it expires the target and ends the round.
\<close>

theorem C1_counterexample:
  "paused demo_paused \<and> elapsed demo_paused = 1 \<and> targets demo_paused = [demo_target]
   \<and> 1 - spawn_time demo_target = 0 \<and> lifetime demo_target = 3/2
   \<and> update demo_paused demo_draws 19 20 = demo_paused
   \<and> playing demo_resumed \<and> \<not> paused demo_resumed \<and> elapsed demo_resumed = 1
   \<and> elapsed (update demo_resumed demo_draws (1/120) 20) = 20
   \<and> elapsed (update demo_resumed demo_draws (1/120) 20) \<noteq> elapsed demo_paused + 1/120
   \<and> targets (update demo_resumed demo_draws (1/120) 20) = [demo_target\<lparr>spawn_time := 20\<rparr>]
   \<and> timeouts (update demo_resumed demo_draws (1/120) 20) = 1
   \<and> score (update demo_resumed demo_draws (1/120) 20) = - 3
   \<and> \<not> playing (update demo_resumed demo_draws (1/120) 20)"
proof -
  have a: "paused demo_paused \<and> elapsed demo_paused = 1 \<and> targets demo_paused = [demo_target]
      \<and> 1 - spawn_time demo_target = 0 \<and> lifetime demo_target = 3/2"
    by (simp add: demo_paused_eq demo_round_eq) (simp add: demo_target_def)
  then have b: "update demo_paused demo_draws 19 20 = demo_paused"
    by (simp add: update_paused)
  have c: "playing demo_round \<and> \<not> paused demo_round \<and> elapsed demo_round = 1"
    by (simp add: demo_round_eq)
  from a b c show ?thesis
    unfolding demo_resumed_eq demo_update_20 by simp
qed

section \<open>The end of a round\<close>

lemma demo_scored_eq:
  "demo_scored = demo_round\<lparr>targets := [], score := 10, hits := 1,
       floating_texts := [(''+10'', GREEN, 450, 320, 2)]\<rparr>"
  using demo_click_hit [of False] by (simp add: demo_scored_def demo_round_eq)

lemma demo_over_eq:
  "demo_over = demo_round\<lparr>playing := False, elapsed := 15, spawn_interval := 0.73,
       last_spawn := 15, targets := [demo_target\<lparr>spawn_time := 15\<rparr>], score := 10, hits := 1,
       best_score := 10, floating_texts := [(''+10'', GREEN, 450, 320, 2)]\<rparr>"
  by (simp add: demo_over_def demo_scored_eq update_blocks demo_round_eq difficulty_block_def
      spawn_block_def expire_block_eq end_round_block_def demo_spawn spec_expired_def clamp_def
      demo_target_def config_defs)

lemma demo_second_eq:
  "demo_second = demo_round\<lparr>spawn_interval := 0.85, last_spawn := 16, start_time := 16,
       elapsed := 0, targets := [], best_score := 10\<rparr>"
  by (simp add: demo_second_def demo_over_eq handle_click_not_playing start_round_def
      demo_round_eq config_defs)

lemma handle_click_playing_keeps:
  assumes "playing g"
  shows "playing (handle_click g pos now) \<and> best_score (handle_click g pos now) = best_score g"
  using assms
  by (cases pos)
    (simp add: handle_click_def make_float_text_def Let_def split: prod.split option.split)

text \<open>
  C5 (as the code has it): a round that is being played leaves the playing phase at the
  first update, made while not paused, with \<open>now - start_time \<ge> 15\<close>, and at no update
  before; that update sets the best score to the maximum of the best score and the score
  (after the timeouts of that update). Updates that do not end the round, updates of a
  paused or finished game and clicks leave the best score alone. The R key, however, sets
  the best score to 0 whenever it is pressed, also in the middle of a round.
\<close>

theorem C5_round_end:
  "(playing g \<and> \<not> paused g \<and> unit_draws rnd \<longrightarrow>
      (now - start_time g < 15 \<longrightarrow>
         playing (update g rnd dt now) \<and> best_score (update g rnd dt now) = best_score g)
      \<and> (now - start_time g \<ge> 15 \<longrightarrow>
         \<not> playing (update g rnd dt now)
         \<and> best_score (update g rnd dt now)
             = max (best_score g) (score (update g rnd dt now))))
   \<and> (\<not> playing g \<or> paused g \<longrightarrow> update g rnd dt now = g)
   \<and> (playing g \<longrightarrow>
        playing (handle_click g pos now) \<and> best_score (handle_click g pos now) = best_score g)
   \<and> handle_event now g (KEYDOWN K_r) = g\<lparr>best_score := 0\<rparr>
   \<and> ROUND_TIME = Some 15"
proof -
  have a: "(now - start_time g < 15 \<longrightarrow>
         playing (update g rnd dt now) \<and> best_score (update g rnd dt now) = best_score g)
      \<and> (now - start_time g \<ge> 15 \<longrightarrow>
         \<not> playing (update g rnd dt now)
         \<and> best_score (update g rnd dt now)
             = max (best_score g) (score (update g rnd dt now)))"
    if "playing g" "\<not> paused g" "unit_draws rnd"
  proof -
    from update_unpaused_eq [OF that, of now dt] obtain new where
      eq: "update g rnd dt now =
       g\<lparr>elapsed := now - start_time g,
         spawn_interval :=
           (if 0 < now - start_time g
            then clamp (SPAWN_INTERVAL_START
                   - real_of_int \<lfloor>(now - start_time g) / real_of_int SPAWN_ACCEL_EVERY\<rfloor>
                       * SPAWN_ACCEL_STEP) SPAWN_INTERVAL_MIN SPAWN_INTERVAL_START
            else spawn_interval g),
         last_spawn := (if new = [] then last_spawn g else now),
         targets := filter (\<lambda>t. \<not> spec_expired now t) (targets g) @ new,
         score := score g + TIMEOUT_SCORE * int (length (filter (spec_expired now) (targets g))),
         timeouts := timeouts g + int (length (filter (spec_expired now) (targets g))),
         floating_texts := floating_texts g @
           map (\<lambda>t. (''-3'', RED, x t, y t, now)) (filter (spec_expired now) (targets g)),
         best_score :=
           (if now - start_time g \<ge> 15
            then max (best_score g)
                   (score g + TIMEOUT_SCORE * int (length (filter (spec_expired now) (targets g))))
            else best_score g),
         playing := \<not> (now - start_time g \<ge> 15)\<rparr>"
      by blast
    show ?thesis by (simp add: eq)
  qed
  have b: "\<not> playing g \<or> paused g \<longrightarrow> update g rnd dt now = g"
    by (auto simp: update_not_playing update_paused)
  have c: "playing g \<longrightarrow>
        playing (handle_click g pos now) \<and> best_score (handle_click g pos now) = best_score g"
    using handle_click_playing_keeps by blast
  have d: "handle_event now g (KEYDOWN K_r) = g\<lparr>best_score := 0\<rparr>" by simp
  from a b c d show ?thesis by (simp add: ROUND_TIME_def)
qed

theorem C5_round_end_witness:
  "playing demo_scored \<and> \<not> paused demo_scored \<and> unit_draws demo_draws
   \<and> start_time demo_scored = 0 \<and> score demo_scored = 10 \<and> best_score demo_scored = 0
   \<and> playing (update demo_scored demo_draws (1/120) 14)
   \<and> best_score (update demo_scored demo_draws (1/120) 14) = 0
   \<and> \<not> playing demo_over \<and> best_score demo_over = 10
   \<and> update demo_over demo_draws (1/120) 16 = demo_over"
proof -
  have pl: "playing demo_scored" "\<not> paused demo_scored" "start_time demo_scored = 0"
    "score demo_scored = 10" "best_score demo_scored = 0"
    by (simp_all add: demo_scored_eq demo_round_eq)
  from C5_round_end [of demo_scored demo_draws 14 "1/120"] pl demo_unit_draws
  have a: "playing (update demo_scored demo_draws (1/120) 14)
     \<and> best_score (update demo_scored demo_draws (1/120) 14) = 0"
    by simp
  from C5_round_end [of demo_scored demo_draws 15 "1/120"] pl demo_unit_draws
  have b: "\<not> playing demo_over
     \<and> best_score demo_over = max 0 (score demo_over)"
    by (simp add: demo_over_def)
  have sc: "score demo_over = 10" by (simp add: demo_over_eq demo_round_eq)
  from C5_round_end [of demo_over demo_draws 16 "1/120"] b
  have c: "update demo_over demo_draws (1/120) 16 = demo_over" by blast
  from pl demo_unit_draws a b c sc show ?thesis by simp
qed

text \<open>
  In the second round of the concrete game, whose first round ended with score 10, the
  best score is 10; pressing R at clock 17 sets it to 0 while the round goes on.
\<close>

theorem C5_counterexample:
  "playing demo_second \<and> \<not> paused demo_second \<and> best_score demo_second = 10
   \<and> playing (handle_events demo_second [KEYDOWN K_r] 17)
   \<and> best_score (handle_events demo_second [KEYDOWN K_r] 17) = 0"
  by (simp add: handle_events_def demo_second_eq) (simp add: demo_round_eq)

section \<open>The difficulty ramp\<close>

lemma clock_inv_mono: "clock_inv c g \<Longrightarrow> c \<le> c' \<Longrightarrow> clock_inv c' g"
  by (auto simp: clock_inv_def)

lemma start_round_clock_inv: "clock_inv now (start_round g now)"
  by (simp add: clock_inv_def start_round_def)

lemma update_clock_inv:
  assumes "clock_inv c g" and "c \<le> now" and "unit_draws rnd"
  shows "clock_inv now (update g rnd dt now)"
proof (cases "playing g \<and> \<not> paused g")
  case False
  then have "update g rnd dt now = g" by (auto simp: update_not_playing update_paused)
  with clock_inv_mono [OF assms(1,2)] show ?thesis by simp
next
  case True
  then have pl: "playing g" "\<not> paused g" by simp_all
  from update_unpaused_eq [OF pl assms(3), of now dt] obtain new where
      eq: "update g rnd dt now =
       g\<lparr>elapsed := now - start_time g,
         spawn_interval :=
           (if 0 < now - start_time g
            then clamp (SPAWN_INTERVAL_START
                   - real_of_int \<lfloor>(now - start_time g) / real_of_int SPAWN_ACCEL_EVERY\<rfloor>
                       * SPAWN_ACCEL_STEP) SPAWN_INTERVAL_MIN SPAWN_INTERVAL_START
            else spawn_interval g),
         last_spawn := (if new = [] then last_spawn g else now),
         targets := filter (\<lambda>t. \<not> spec_expired now t) (targets g) @ new,
         score := score g + TIMEOUT_SCORE * int (length (filter (spec_expired now) (targets g))),
         timeouts := timeouts g + int (length (filter (spec_expired now) (targets g))),
         floating_texts := floating_texts g @
           map (\<lambda>t. (''-3'', RED, x t, y t, now)) (filter (spec_expired now) (targets g)),
         best_score :=
           (if now - start_time g \<ge> 15
            then max (best_score g)
                   (score g + TIMEOUT_SCORE * int (length (filter (spec_expired now) (targets g))))
            else best_score g),
         playing := \<not> (now - start_time g \<ge> 15)\<rparr>"
    by blast
  from assms(1) pl have inv: "start_time g \<le> c" "0 \<le> elapsed g"
    "elapsed g \<le> c - start_time g" "elapsed g = 0 \<longrightarrow> spawn_interval g = SPAWN_INTERVAL_START"
    by (simp_all add: clock_inv_def)
  with assms(2) show ?thesis
    by (auto simp: eq clock_inv_def)
qed

lemma handle_click_clock_inv:
  assumes "clock_inv c g" and "c \<le> now"
  shows "clock_inv now (handle_click g pos now)"
proof (cases "playing g")
  case False
  then show ?thesis by (simp add: handle_click_not_playing start_round_clock_inv)
next
  case True
  then have "start_time (handle_click g pos now) = start_time g
     \<and> elapsed (handle_click g pos now) = elapsed g
     \<and> spawn_interval (handle_click g pos now) = spawn_interval g"
    by (cases pos)
      (simp add: handle_click_def make_float_text_def Let_def split: prod.split option.split)
  with clock_inv_mono [OF assms] True show ?thesis
    by (simp add: clock_inv_def)
qed

lemma handle_event_clock_inv:
  assumes "clock_inv c g" and "c \<le> now"
  shows "clock_inv now (handle_event now g ev)"
proof (cases ev)
  case (MOUSEBUTTONDOWN button pos)
  with handle_click_clock_inv [OF assms] clock_inv_mono [OF assms] show ?thesis by simp
next
  case (KEYDOWN k)
  with clock_inv_mono [OF assms] show ?thesis by (simp add: clock_inv_def)
next
  case QUIT
  with clock_inv_mono [OF assms] show ?thesis by (simp add: clock_inv_def)
next
  case OTHER_EVENT
  with clock_inv_mono [OF assms] show ?thesis by simp
qed

lemma handle_events_clock_inv:
  assumes "clock_inv c g" and "c \<le> now"
  shows "clock_inv now (handle_events g evs now)"
proof -
  have "clock_inv now h \<Longrightarrow> clock_inv now (foldl (handle_event now) h evs)" for h
    by (induction evs arbitrary: h) (simp_all add: handle_event_clock_inv)
  with clock_inv_mono [OF assms] show ?thesis by (simp add: handle_events_def)
qed

lemma clocked_clock_inv: "clocked c g \<Longrightarrow> clock_inv c g"
proof (induction rule: clocked.induct)
  case (clocked_reset c g)
  show ?case by (simp add: clock_inv_def reset_def)
next
  case (clocked_start_round c g now)
  show ?case by (rule start_round_clock_inv)
next
  case (clocked_update c g now rnd dt)
  then show ?case by (simp add: update_clock_inv)
next
  case (clocked_handle_click c g now pos)
  then show ?case by (simp add: handle_click_clock_inv)
next
  case (clocked_handle_events c g now evs)
  then show ?case by (simp add: handle_events_clock_inv)
next
  case (clocked_draw c g now)
  from clock_inv_mono [OF clocked_draw.IH clocked_draw.hyps(2)] show ?case
    by (simp add: clock_inv_def draw_def)
qed

lemma update_spawn_interval:
  assumes "playing g" and "\<not> paused g"
  shows "elapsed (update g rnd dt now) = now - start_time g"
    and "spawn_interval (update g rnd dt now) =
           (if 0 < now - start_time g
            then clamp (SPAWN_INTERVAL_START
                   - real_of_int \<lfloor>(now - start_time g) / real_of_int SPAWN_ACCEL_EVERY\<rfloor>
                       * SPAWN_ACCEL_STEP) SPAWN_INTERVAL_MIN SPAWN_INTERVAL_START
            else spawn_interval g)"
  using assms
  by (simp_all add: update_blocks difficulty_block_def spawn_block_def expire_block_eq
      end_round_block_def spawn_target_def Let_def ROUND_TIME_def SPAWN_ACCEL_EVERY_def)

lemma code_ramp_eq_spec:
  "clamp (SPAWN_INTERVAL_START - real_of_int \<lfloor>t / real_of_int SPAWN_ACCEL_EVERY\<rfloor> * SPAWN_ACCEL_STEP)
     SPAWN_INTERVAL_MIN SPAWN_INTERVAL_START = spec_spawn_interval t"
proof -
  define a where "a = real_of_int \<lfloor>t / 5\<rfloor>"
  have "max 0.35 (min 0.85 (0.85 - a * 0.04))
        = (if 0.85 - a * 0.04 < 0.35 then 0.35
           else if 0.85 < 0.85 - a * 0.04 then 0.85 else 0.85 - a * (0.04::real))"
    by (auto simp: max_def min_def)
  then show ?thesis
    by (simp only: clamp_def spec_spawn_interval_def config_defs a_def of_int_numeral)
qed

lemma spec_spawn_interval_mono:
  assumes "t1 \<le> t2"
  shows "spec_spawn_interval t2 \<le> spec_spawn_interval t1"
proof -
  define a1 where "a1 = real_of_int \<lfloor>t1 / 5\<rfloor>"
  define a2 where "a2 = real_of_int \<lfloor>t2 / 5\<rfloor>"
  from assms have "t1 / 5 \<le> t2 / 5" by simp
  then have "\<lfloor>t1 / 5\<rfloor> \<le> \<lfloor>t2 / 5\<rfloor>" by (rule floor_mono)
  then have le: "a1 \<le> a2" by (simp add: a1_def a2_def)
  have "(if 0.85 - a2 * 0.04 < 0.35 then 0.35
         else if 0.85 < 0.85 - a2 * 0.04 then 0.85 else 0.85 - a2 * 0.04)
        \<le> (if 0.85 - a1 * 0.04 < 0.35 then 0.35
         else if 0.85 < 0.85 - a1 * 0.04 then 0.85 else 0.85 - a1 * (0.04::real))"
    using le by (auto split: if_splits)
  then show ?thesis by (simp only: spec_spawn_interval_def a1_def a2_def)
qed

lemma spec_spawn_interval_bounds:
  "0.35 \<le> spec_spawn_interval t \<and> spec_spawn_interval t \<le> 0.85"
proof -
  define a where "a = real_of_int \<lfloor>t / 5\<rfloor>"
  have "0.35 \<le> (if 0.85 - a * 0.04 < 0.35 then 0.35
         else if 0.85 < 0.85 - a * 0.04 then 0.85 else 0.85 - a * (0.04::real))
     \<and> (if 0.85 - a * 0.04 < 0.35 then 0.35
         else if 0.85 < 0.85 - a * 0.04 then 0.85 else 0.85 - a * (0.04::real)) \<le> 0.85"
    by (auto split: if_splits)
  then show ?thesis by (simp only: spec_spawn_interval_def a_def)
qed

lemma demo_ramped_eq:
  "demo_ramped = demo_round\<lparr>elapsed := 12, spawn_interval := 0.77, last_spawn := 12,
     targets := [demo_target\<lparr>spawn_time := 12\<rparr>]\<rparr>"
  by (simp add: demo_ramped_def Game_init_def reset_def start_round_def update_blocks
      difficulty_block_def spawn_block_def expire_block_eq end_round_block_def demo_spawn
      spec_expired_def clamp_def demo_round_eq demo_target_def config_defs)

lemma demo_ramped_reachable: "reachable demo_ramped"
  unfolding demo_ramped_def Game_init_def
  by (intro reachable.intros demo_unit_draws)

text \<open>
  C4 (as the code has it): an update of the playing, unpaused game with positive elapsed
  time \<open>t = now - start_time\<close> leaves \<open>spawn_interval\<close> equal to
  \<open>clamp(0.85 - floor(t / 5) * 0.04, 0.35, 0.85)\<close>; with \<open>t \<le> 0\<close> it leaves the interval
  as it was, which under a clock that never runs backwards is still the 0.85 of
  \<open>start_round\<close>, the value of the formula at 0. The formula is non-increasing in \<open>t\<close>,
  stays between 0.35 and 0.85, is 0.77 at 12 seconds, and \<open>start_round\<close> puts the
  interval back to 0.85.
\<close>

theorem C4_spawn_interval:
  "(playing g \<and> \<not> paused g \<longrightarrow>
      elapsed (update g rnd dt now) = now - start_time g
      \<and> (0 < now - start_time g \<longrightarrow>
            spawn_interval (update g rnd dt now) = spec_spawn_interval (now - start_time g))
      \<and> (now - start_time g \<le> 0 \<longrightarrow>
            spawn_interval (update g rnd dt now) = spawn_interval g))
   \<and> (clocked c g \<and> c \<le> now \<and> playing g \<and> \<not> paused g \<longrightarrow>
        spawn_interval (update g rnd dt now) = spec_spawn_interval (now - start_time g))
   \<and> (t1 \<le> t2 \<longrightarrow> spec_spawn_interval t2 \<le> spec_spawn_interval t1)
   \<and> 0.35 \<le> spec_spawn_interval t1 \<and> spec_spawn_interval t1 \<le> 0.85
   \<and> spec_spawn_interval 12 = 0.77
   \<and> spawn_interval (start_round g now) = 0.85"
proof -
  have a: "elapsed (update g rnd dt now) = now - start_time g
      \<and> (0 < now - start_time g \<longrightarrow>
            spawn_interval (update g rnd dt now) = spec_spawn_interval (now - start_time g))
      \<and> (now - start_time g \<le> 0 \<longrightarrow>
            spawn_interval (update g rnd dt now) = spawn_interval g)"
    if "playing g" "\<not> paused g"
    using update_spawn_interval [OF that, of rnd dt now]
    by (simp add: code_ramp_eq_spec)
  have a': "spawn_interval (update g rnd dt now) = spec_spawn_interval (now - start_time g)"
    if "clocked c g" "c \<le> now" "playing g" "\<not> paused g"
  proof (cases "0 < now - start_time g")
    case True
    with a [OF that(3,4)] show ?thesis by blast
  next
    case False
    from clocked_clock_inv [OF that(1)] that(3) have inv: "start_time g \<le> c" "0 \<le> elapsed g"
      "elapsed g \<le> c - start_time g" "elapsed g = 0 \<longrightarrow> spawn_interval g = SPAWN_INTERVAL_START"
      by (simp_all add: clock_inv_def)
    with False that(2) have e0: "now - start_time g = 0" and "elapsed g = 0" by linarith+
    with inv have si: "spawn_interval g = 0.85" by (simp add: SPAWN_INTERVAL_START_def)
    have s0: "spec_spawn_interval 0 = 0.85" by (simp add: spec_spawn_interval_def)
    from a [OF that(3,4)] False
    have h2: "spawn_interval (update g rnd dt now) = spawn_interval g" by simp
    show ?thesis by (simp only: h2 si e0 s0)
  qed
  have b: "t1 \<le> t2 \<longrightarrow> spec_spawn_interval t2 \<le> spec_spawn_interval t1"
    using spec_spawn_interval_mono by blast
  have c: "spec_spawn_interval 12 = 0.77"
    by (simp add: spec_spawn_interval_def)
  have d: "spawn_interval (start_round g now) = 0.85"
    by (simp add: start_round_def SPAWN_INTERVAL_START_def)
  from a a' b c d spec_spawn_interval_bounds [of t1] show ?thesis by blast
qed

lemma demo_clocked: "clocked 0 (start_round Game_init 0)"
  unfolding Game_init_def
  by (rule clocked_start_round [OF clocked_reset [of 0]]) simp

theorem C4_spawn_interval_witness:
  "clocked 0 (start_round Game_init 0) \<and> playing (start_round Game_init 0)
   \<and> \<not> paused (start_round Game_init 0) \<and> start_time (start_round Game_init 0) = 0
   \<and> spawn_interval (update (start_round Game_init 0) demo_draws (1/120) 12) = 0.77
   \<and> spawn_interval (update (start_round Game_init 0) demo_draws (1/120) 100) = 0.35
   \<and> spawn_interval (update (start_round Game_init 0) demo_draws (1/120) 0) = 0.85"
proof -
  let ?g = "start_round Game_init 0"
  have pl: "playing ?g" "\<not> paused ?g" "start_time ?g = 0"
    by (simp_all add: start_round_def Game_init_def reset_def)
  have le: "(0::real) \<le> 0" "(0::real) < 12 - 0" "(0::real) < 100 - 0" by simp_all
  from C4_spawn_interval [of ?g demo_draws "1/120" 12 0 0 0] pl(1,2) le(2)
  have "spawn_interval (update ?g demo_draws (1/120) 12) = spec_spawn_interval (12 - start_time ?g)"
    by (simp only: pl(3)) blast
  then have a: "spawn_interval (update ?g demo_draws (1/120) 12) = 0.77"
    by (simp add: pl(3) spec_spawn_interval_def)
  from C4_spawn_interval [of ?g demo_draws "1/120" 100 0 0 0] pl(1,2) le(3)
  have "spawn_interval (update ?g demo_draws (1/120) 100) = spec_spawn_interval (100 - start_time ?g)"
    by (simp only: pl(3)) blast
  then have b: "spawn_interval (update ?g demo_draws (1/120) 100) = 0.35"
    by (simp add: pl(3) spec_spawn_interval_def)
  from C4_spawn_interval [of ?g demo_draws "1/120" 0 0 0 0] demo_clocked pl(1,2) le(1)
  have "spawn_interval (update ?g demo_draws (1/120) 0) = spec_spawn_interval (0 - start_time ?g)"
    by blast
  then have c: "spawn_interval (update ?g demo_draws (1/120) 0) = 0.85"
    by (simp add: pl(3) spec_spawn_interval_def)
  from a b c pl demo_clocked show ?thesis by simp
qed

text \<open>
  The round that starts at clock 0 and is updated at clock 12 has the interval 0.77. An
  update at clock 0 after that has elapsed time 0, for which the formula gives 0.85, but
  it leaves the interval at 0.77: the recomputation is guarded by \<open>elapsed > 0\<close>.
\<close>

theorem C4_counterexample:
  "reachable demo_ramped \<and> playing demo_ramped \<and> \<not> paused demo_ramped
   \<and> start_time demo_ramped = 0 \<and> spawn_interval demo_ramped = 0.77
   \<and> elapsed (update demo_ramped demo_draws (1/120) 0) = 0
   \<and> spawn_interval (update demo_ramped demo_draws (1/120) 0) = 0.77
   \<and> spec_spawn_interval 0 = 0.85
   \<and> spawn_interval (update demo_ramped demo_draws (1/120) 0) \<noteq> spec_spawn_interval 0"
proof -
  have pl: "playing demo_ramped" "\<not> paused demo_ramped" "start_time demo_ramped = 0"
    "spawn_interval demo_ramped = 0.77"
    by (simp_all add: demo_ramped_eq demo_round_eq)
  have e: "elapsed (update demo_ramped demo_draws (1/120) 0) = 0"
    "spawn_interval (update demo_ramped demo_draws (1/120) 0) = 0.77"
    using update_spawn_interval [OF pl(1,2), of demo_draws "1/120" 0] by (simp_all add: pl)
  have s0: "spec_spawn_interval 0 = 0.85" by (simp add: spec_spawn_interval_def)
  from pl e s0 demo_ramped_reachable show ?thesis by simp
qed

end
